theory Spec2Isabelle
  imports Complex_Main "HOL-Library.AList"
begin

section \<open>The document tree\<close>

text \<open>
  Both programs work on the tree that \<^verbatim>\<open>xml.etree.ElementTree\<close> builds: an element has a
  tag, a dictionary of attributes (insertion ordered, so an association list), a text that is
  \<^verbatim>\<open>None\<close> for an element without character data, and its child elements in document order.
\<close>

datatype elem =
  Elem (tag: string) (attrib: "(string \<times> string) list") (etext: "string option")
    (children: "elem list")

text \<open>Every tag the programs look for is qualified by the one namespace \<^verbatim>\<open>self.ns['sc3']\<close>.\<close>

definition ns_sc3 :: string where
  "ns_sc3 = ''http://geofon.gfz-potsdam.de/ns/seiscomp3-schema/0.12''"

definition sc3 :: "string \<Rightarrow> string" where
  "sc3 t = ''{'' @ ns_sc3 @ ''}'' @ t"

text \<open>\<^verbatim>\<open>element.get(key)\<close> and \<^verbatim>\<open>element.get(key, default)\<close>.\<close>

definition get :: "elem \<Rightarrow> string \<Rightarrow> string option" where
  "get e k = map_of (attrib e) k"

definition get_default :: "elem \<Rightarrow> string \<Rightarrow> string \<Rightarrow> string" where
  "get_default e k d = (case map_of (attrib e) k of None \<Rightarrow> d | Some v \<Rightarrow> v)"

text \<open>\<^verbatim>\<open>element.set(key, value)\<close> and \<^verbatim>\<open>del element.attrib[key]\<close>.\<close>

definition set_attr :: "elem \<Rightarrow> string \<Rightarrow> string \<Rightarrow> elem" where
  "set_attr e k v = Elem (tag e) (AList.update k v (attrib e)) (etext e) (children e)"

definition del_attr :: "elem \<Rightarrow> string \<Rightarrow> elem" where
  "del_attr e k = Elem (tag e) (AList.delete k (attrib e)) (etext e) (children e)"

text \<open>
  \<^verbatim>\<open>element.find('sc3:tag', ns)\<close> is the first direct child with the tag,
  \<^verbatim>\<open>element.findall('sc3:tag', ns)\<close> all direct children with it, and
  \<^verbatim>\<open>element.findall('.//sc3:tag', ns)\<close> all proper descendants with it, in document order
  (a preorder walk).
\<close>

definition find_elem :: "elem \<Rightarrow> string \<Rightarrow> elem option" where
  "find_elem e t = List.find (\<lambda>c. tag c = sc3 t) (children e)"

definition findall :: "elem \<Rightarrow> string \<Rightarrow> elem list" where
  "findall e t = filter (\<lambda>c. tag c = sc3 t) (children e)"

fun descendants :: "elem \<Rightarrow> elem list" where
  "descendants (Elem t a x cs) = concat (map (\<lambda>c. c # descendants c) cs)"

definition findall_desc :: "elem \<Rightarrow> string \<Rightarrow> elem list" where
  "findall_desc e t = filter (\<lambda>c. tag c = sc3 t) (descendants e)"

text \<open>The analyzer's \<^verbatim>\<open>_get_element_text(element, tag)\<close>: the text of the first child with
  the tag, \<^verbatim>\<open>None\<close> when there is no such child (or it has no text).\<close>

definition get_element_text :: "elem \<Rightarrow> string \<Rightarrow> string option" where
  "get_element_text element t =
     (case find_elem element t of None \<Rightarrow> None | Some el \<Rightarrow> etext el)"

section \<open>The editor: field updates on a node\<close>

text \<open>
  \<^verbatim>\<open>_update_element_text(element, tag, value)\<close>. The Python holds a reference \<^verbatim>\<open>elem\<close> to the
  first child with the tag and either assigns its text or removes it from its parent. On
  values, assigning through the reference rewrites the first child with the tag, and
  \<^verbatim>\<open>element.remove(elem)\<close> deletes that child; \<^verbatim>\<open>ET.SubElement\<close> appends a new last child.
\<close>

fun set_text_first :: "string \<Rightarrow> string \<Rightarrow> elem list \<Rightarrow> elem list" where
  "set_text_first t v [] = []"
| "set_text_first t v (c # cs) =
     (if tag c = t then Elem (tag c) (attrib c) (Some v) (children c) # cs
      else c # set_text_first t v cs)"

fun remove_first :: "string \<Rightarrow> elem list \<Rightarrow> elem list" where
  "remove_first t [] = []"
| "remove_first t (c # cs) = (if tag c = t then cs else c # remove_first t cs)"

definition SubElement :: "elem \<Rightarrow> string \<Rightarrow> elem" where
  "SubElement parent t = Elem (tag parent) (attrib parent) (etext parent)
     (children parent @ [Elem t [] None []])"

definition update_element_text :: "elem \<Rightarrow> string \<Rightarrow> string \<Rightarrow> elem" where
  "update_element_text element t v =
     (let element' = (if find_elem element t = None \<and> v \<noteq> [] then SubElement element (sc3 t)
                      else element)
      in if v \<noteq> [] then
           Elem (tag element') (attrib element') (etext element')
             (set_text_first (sc3 t) v (children element'))
         else if find_elem element' t \<noteq> None then
           Elem (tag element') (attrib element') (etext element')
             (remove_first (sc3 t) (children element'))
         else element')"

text \<open>The editor's \<^verbatim>\<open>_get_element_text(element, tag, default)\<close>: the default stands in only for
  a missing element; an element without character data gives \<^verbatim>\<open>None\<close>.\<close>

definition get_element_text_default :: "elem \<Rightarrow> string \<Rightarrow> string \<Rightarrow> string option" where
  "get_element_text_default element t d =
     (case find_elem element t of None \<Rightarrow> Some d | Some el \<Rightarrow> etext el)"

text \<open>
  Exceptions of the Python run time that the modelled code can meet. The message of a
  \<^verbatim>\<open>ValueError\<close> is kept because \<^verbatim>\<open>parse_inventory\<close> prints it.
\<close>

datatype pyexn =
  ValueError string | TypeError | ZeroDivisionError | OverflowError | KeyError string
  | FileNotFoundError | FileExistsError | OSError | UnboundLocalError | ParseError

fun is_ValueError :: "pyexn \<Rightarrow> bool" where
  "is_ValueError (ValueError m) = True"
| "is_ValueError ex = False"

subsection \<open>Python floats\<close>

text \<open>
  A float is modelled by the number it denotes, or one of the three special values. The
  builtin \<^verbatim>\<open>float\<close> on a \<^verbatim>\<open>str\<close> is a parameter \<open>flt\<close> of the functions that call it
  (\<open>None\<close> where it raises \<^verbatim>\<open>ValueError\<close>); on \<^verbatim>\<open>None\<close> it raises \<^verbatim>\<open>TypeError\<close>.
  \<^verbatim>\<open>int\<close> truncates towards zero and raises on the special values. The quotient of two
  floats is taken exactly: its rounding to the nearest double is not modelled.
\<close>

datatype pyfloat = Finite rat | PosInf | NegInf | NaN

definition py_float :: "(string \<Rightarrow> pyfloat option) \<Rightarrow> string option \<Rightarrow> pyexn + pyfloat" where
  "py_float flt arg =
     (case arg of
        None \<Rightarrow> Inl TypeError
      | Some s \<Rightarrow> (case flt s of
                    None \<Rightarrow> Inl (ValueError ''could not convert string to float'')
                  | Some r \<Rightarrow> Inr r))"

fun py_int :: "pyfloat \<Rightarrow> pyexn + int" where
  "py_int (Finite r) = Inr (if r < 0 then - \<lfloor>- r\<rfloor> else \<lfloor>r\<rfloor>)"
| "py_int PosInf = Inl OverflowError"
| "py_int NegInf = Inl OverflowError"
| "py_int NaN = Inl (ValueError ''cannot convert float NaN to integer'')"

fun float_quot :: "pyfloat \<Rightarrow> pyfloat \<Rightarrow> pyfloat" where
  "float_quot (Finite a) (Finite b) = Finite (a / b)"
| "float_quot (Finite a) PosInf = Finite 0"
| "float_quot (Finite a) NegInf = Finite 0"
| "float_quot PosInf (Finite b) = (if 0 < b then PosInf else NegInf)"
| "float_quot NegInf (Finite b) = (if 0 < b then NegInf else PosInf)"
| "float_quot a b = NaN"

definition py_truediv :: "pyfloat \<Rightarrow> pyfloat \<Rightarrow> pyexn + pyfloat" where
  "py_truediv a b = (if b = Finite 0 then Inl ZeroDivisionError else Inr (float_quot a b))"

text \<open>\<^verbatim>\<open>str\<close> of an \<^verbatim>\<open>int\<close>: its decimal digits, with a minus sign when negative.\<close>

fun str_nat :: "nat \<Rightarrow> string" where
  "str_nat n = (if n < 10 then [''0123456789'' ! n]
                else str_nat (n div 10) @ [''0123456789'' ! (n mod 10)])"

declare str_nat.simps [simp del]

definition str_int :: "int \<Rightarrow> string" where
  "str_int i = (if i < 0 then ''-'' @ str_nat (nat (- i)) else str_nat (nat i))"

text \<open>The values of \<^verbatim>\<open>float\<close> on the texts used in the examples below; it raises
  \<^verbatim>\<open>ValueError\<close> on the empty string and on \<^verbatim>\<open>'abc'\<close>.\<close>

definition float_examples :: "string \<Rightarrow> pyfloat option" where
  "float_examples = map_of
     [(''100'', Finite 100), (''1'', Finite 1), (''0'', Finite 0), (''0.5'', Finite (1 / 2)),
      (''inf'', PosInf), (''nan'', NaN)]"

subsection \<open>The forms and the commits on a node\<close>

record station_form =
  station_code :: string
  station_name :: string
  station_description :: string
  station_lat :: string
  station_lon :: string
  station_elevation :: string

record equipment_form =
  equipment_name :: string
  equipment_type :: string
  equipment_model :: string
  equipment_manufacturer :: string
  equipment_serial :: string

record stream_form =
  stream_code :: string
  stream_start :: string
  stream_end :: string
  stream_depth :: string
  stream_azimuth :: string
  stream_dip :: string
  stream_gain :: string
  stream_sampleRate :: string
  stream_gainFrequency :: string
  stream_gainUnit :: string
  stream_datalogger_serialnumber :: string
  stream_sensor_serialnumber :: string
  stream_flags :: string

text \<open>A run of \<^verbatim>\<open>self._update_element_text(self.current_element, tag, value)\<close> calls, in
  the order written.\<close>

definition update_texts :: "(string \<times> string) list \<Rightarrow> elem \<Rightarrow> elem" where
  "update_texts tvs e = fold (\<lambda>(t, v) e'. update_element_text e' t v) tvs e"

text \<open>The child element texts each commit writes, as (tag, widget text) in the order of
  the calls.\<close>

definition station_texts :: "station_form \<Rightarrow> (string \<times> string) list" where
  "station_texts f =
     [(''description'', station_description f), (''latitude'', station_lat f),
      (''longitude'', station_lon f), (''elevation'', station_elevation f)]"

definition equipment_texts :: "equipment_form \<Rightarrow> (string \<times> string) list" where
  "equipment_texts f =
     [(''type'', equipment_type f), (''model'', equipment_model f),
      (''manufacturer'', equipment_manufacturer f), (''serialNumber'', equipment_serial f)]"

definition stream_texts_before :: "stream_form \<Rightarrow> (string \<times> string) list" where
  "stream_texts_before f =
     [(''start'', stream_start f), (''end'', stream_end f), (''depth'', stream_depth f),
      (''azimuth'', stream_azimuth f), (''dip'', stream_dip f), (''gain'', stream_gain f)]"

definition stream_texts_after :: "stream_form \<Rightarrow> (string \<times> string) list" where
  "stream_texts_after f =
     [(''gainFrequency'', stream_gainFrequency f), (''gainUnit'', stream_gainUnit f),
      (''dataloggerSerialNumber'', stream_datalogger_serialnumber f),
      (''sensorSerialNumber'', stream_sensor_serialnumber f), (''flags'', stream_flags f)]"

text \<open>The body of \<^verbatim>\<open>update_station\<close> on the selected element.\<close>

definition commit_station :: "station_form \<Rightarrow> elem \<Rightarrow> elem" where
  "commit_station f e =
     (let e1 = (if station_code f \<noteq> [] then set_attr e ''code'' (station_code f) else e);
          e2 = (if station_name f \<noteq> [] then set_attr e1 ''name'' (station_name f)
                else if map_of (attrib e1) ''name'' \<noteq> None then del_attr e1 ''name''
                else e1)
      in update_texts (station_texts f) e2)"

text \<open>The attribute part of \<^verbatim>\<open>update_station\<close>, on the attribute dictionary alone.\<close>

definition station_attrs :: "station_form \<Rightarrow> (string \<times> string) list \<Rightarrow> (string \<times> string) list" where
  "station_attrs f al =
     (let a1 = (if station_code f \<noteq> [] then AList.update ''code'' (station_code f) al else al)
      in if station_name f \<noteq> [] then AList.update ''name'' (station_name f) a1
         else if map_of a1 ''name'' \<noteq> None then AList.delete ''name'' a1 else a1)"

text \<open>The bodies of \<^verbatim>\<open>update_sensor\<close> and \<^verbatim>\<open>update_datalogger\<close>, which differ in the
  widgets they read only.\<close>

definition commit_equipment :: "equipment_form \<Rightarrow> elem \<Rightarrow> elem" where
  "commit_equipment f e =
     update_texts (equipment_texts f) (set_attr e ''name'' (equipment_name f))"

text \<open>
  The inner \<^verbatim>\<open>try\<close> of \<^verbatim>\<open>update_stream\<close>: \<^verbatim>\<open>ValueError\<close> and \<^verbatim>\<open>TypeError\<close> are passed over,
  any other exception leaves the block (\<open>Inl\<close>).
\<close>

definition sample_rate_step :: "(string \<Rightarrow> pyfloat option) \<Rightarrow> string \<Rightarrow> elem \<Rightarrow> pyexn + elem" where
  "sample_rate_step flt txt e =
     (case py_float flt (Some txt) of
        Inl ex \<Rightarrow> if is_ValueError ex \<or> ex = TypeError then Inr e else Inl ex
      | Inr sample_rate \<Rightarrow>
          (case py_int sample_rate of
             Inl ex \<Rightarrow> if is_ValueError ex \<or> ex = TypeError then Inr e else Inl ex
           | Inr n \<Rightarrow>
               Inr (update_texts
                      [(''sampleRateNumerator'', str_int n), (''sampleRateDenominator'', ''1'')]
                      e)))"

text \<open>
  The body of \<^verbatim>\<open>update_stream\<close> on the selected element, up to \<^verbatim>\<open>populate_tree\<close>: the element
  as the body leaves it, and the exception that reached the outer handler, if any. The
  element is mutated in place, so the updates made before an exception stay.
\<close>

definition commit_stream :: "(string \<Rightarrow> pyfloat option) \<Rightarrow> stream_form \<Rightarrow> elem \<Rightarrow> elem \<times> pyexn option" where
  "commit_stream flt f e =
     (let e1 = update_texts (stream_texts_before f) (set_attr e ''code'' (stream_code f))
      in case sample_rate_step flt (stream_sampleRate f) e1 of
           Inl ex \<Rightarrow> (e1, Some ex)
         | Inr e2 \<Rightarrow> (update_texts (stream_texts_after f) e2, None))"

text \<open>
  A field (tag, value) is settled on a node when the node already shows the value:
  no child under the tag for the empty value, the first child under the tag holding the
  value otherwise. A node has the emptied fields once when every field committed as empty
  has at most one child under its tag.
\<close>

definition settled :: "elem \<Rightarrow> string \<times> string \<Rightarrow> bool" where
  "settled e tv =
     (case tv of (t, v) \<Rightarrow>
        if v = [] then findall e t = []
        else (case findall e t of [] \<Rightarrow> False | c # _ \<Rightarrow> etext c = Some v))"

definition emptied_once :: "(string \<times> string) list \<Rightarrow> elem \<Rightarrow> bool" where
  "emptied_once tvs e = list_all (\<lambda>(t, v). v \<noteq> [] \<or> length (findall e t) \<le> 1) tvs"

subsection \<open>The editing session\<close>

text \<open>
  The session holds the loaded tree and the element selected in the tree widget, a reference
  into the tree: here the path of child positions from the root (\<open>None\<close> before any
  selection, when the attribute \<^verbatim>\<open>current_element\<close> does not exist yet). A commit rewrites
  the node at that path, which is what mutating the referenced element does to the tree.
  Message boxes and status bar messages are collected in \<open>notices\<close>; \<^verbatim>\<open>populate_tree\<close>
  rebuilds the tree widget and changes nothing here.
\<close>

fun node_at :: "nat list \<Rightarrow> elem \<Rightarrow> elem option" where
  "node_at [] e = Some e"
| "node_at (i # p) e = (if i < length (children e) then node_at p (children e ! i) else None)"

fun modify_at :: "nat list \<Rightarrow> (elem \<Rightarrow> elem) \<Rightarrow> elem \<Rightarrow> elem" where
  "modify_at [] f e = f e"
| "modify_at (i # p) f e =
     (if i < length (children e)
      then Elem (tag e) (attrib e) (etext e)
             ((children e)[i := modify_at p f (children e ! i)])
      else e)"

datatype notice = Status string | Critical string pyexn

record editor =
  current_file :: "string option"
  root :: "elem option"
  current_element :: "nat list option"
  unsaved_changes :: bool
  notices :: "notice list"

definition update_station :: "station_form \<Rightarrow> editor \<Rightarrow> editor" where
  "update_station f st =
     (case (current_element st, root st) of
        (Some p, Some r) \<Rightarrow>
          st\<lparr>root := Some (modify_at p (commit_station f) r), unsaved_changes := True,
             notices := notices st @ [Status ''Station updated successfully'']\<rparr>
      | _ \<Rightarrow> st)"

definition update_sensor :: "equipment_form \<Rightarrow> editor \<Rightarrow> editor" where
  "update_sensor f st =
     (case (current_element st, root st) of
        (Some p, Some r) \<Rightarrow>
          st\<lparr>root := Some (modify_at p (commit_equipment f) r), unsaved_changes := True,
             notices := notices st @ [Status ''Sensor updated successfully'']\<rparr>
      | _ \<Rightarrow> st)"

definition update_datalogger :: "equipment_form \<Rightarrow> editor \<Rightarrow> editor" where
  "update_datalogger f st =
     (case (current_element st, root st) of
        (Some p, Some r) \<Rightarrow>
          st\<lparr>root := Some (modify_at p (commit_equipment f) r), unsaved_changes := True,
             notices := notices st @ [Status ''Datalogger updated successfully'']\<rparr>
      | _ \<Rightarrow> st)"

definition update_stream :: "(string \<Rightarrow> pyfloat option) \<Rightarrow> stream_form \<Rightarrow> editor \<Rightarrow> editor" where
  "update_stream flt f st =
     (case (current_element st, root st) of
        (Some p, Some r) \<Rightarrow>
          (case node_at p r of
             None \<Rightarrow> st
           | Some e \<Rightarrow>
               (case snd (commit_stream flt f e) of
                  None \<Rightarrow>
                    st\<lparr>root := Some (modify_at p (\<lambda>x. fst (commit_stream flt f x)) r),
                       unsaved_changes := True,
                       notices := notices st @ [Status ''Stream updated successfully'']\<rparr>
                | Some ex \<Rightarrow>
                    st\<lparr>root := Some (modify_at p (\<lambda>x. fst (commit_stream flt f x)) r),
                       notices := notices st @ [Critical ''Failed to update stream'' ex]\<rparr>))
      | _ \<Rightarrow> st)"

subsection \<open>Reading a stream into the form\<close>

text \<open>
  \<^verbatim>\<open>populate_stream_fields\<close>. Each widget receives one \<^verbatim>\<open>setText\<close>; the sample rate widget
  receives \<^verbatim>\<open>str(sample_rate)\<close> (\<open>Rate\<close>) or the empty string (\<open>Blank\<close>). The handler
  names \<^verbatim>\<open>ValueError\<close> and \<^verbatim>\<open>ZeroDivisionError\<close>; any other exception leaves the function.
\<close>

datatype rate_text = Rate pyfloat | Blank

definition sample_rate_text :: "(string \<Rightarrow> pyfloat option) \<Rightarrow> elem \<Rightarrow> pyexn + rate_text" where
  "sample_rate_text flt stream =
     (let numerator = get_element_text_default stream ''sampleRateNumerator'' ''0'';
          denominator = get_element_text_default stream ''sampleRateDenominator'' ''1'';
          handler = (\<lambda>ex. if is_ValueError ex \<or> ex = ZeroDivisionError then Inr Blank else Inl ex)
      in case py_float flt numerator of
           Inl ex \<Rightarrow> handler ex
         | Inr n \<Rightarrow>
             (case py_float flt denominator of
                Inl ex \<Rightarrow> handler ex
              | Inr d \<Rightarrow>
                  (case py_truediv n d of
                     Inl ex \<Rightarrow> handler ex
                   | Inr sample_rate \<Rightarrow> Inr (Rate sample_rate))))"

record stream_fields =
  shown_code :: string
  shown_start :: "string option"
  shown_end :: "string option"
  shown_depth :: "string option"
  shown_azimuth :: "string option"
  shown_dip :: "string option"
  shown_gain :: "string option"
  shown_sampleRate :: rate_text
  shown_gainFrequency :: "string option"
  shown_gainUnit :: "string option"
  shown_datalogger_serialnumber :: "string option"
  shown_sensor_serialnumber :: "string option"
  shown_flags :: "string option"

definition populate_stream_fields :: "(string \<Rightarrow> pyfloat option) \<Rightarrow> elem \<Rightarrow> pyexn + stream_fields" where
  "populate_stream_fields flt stream =
     (case sample_rate_text flt stream of
        Inl ex \<Rightarrow> Inl ex
      | Inr rate \<Rightarrow>
          Inr \<lparr>shown_code = get_default stream ''code'' '''',
               shown_start = get_element_text_default stream ''start'' '''',
               shown_end = get_element_text_default stream ''end'' '''',
               shown_depth = get_element_text_default stream ''depth'' '''',
               shown_azimuth = get_element_text_default stream ''azimuth'' '''',
               shown_dip = get_element_text_default stream ''dip'' '''',
               shown_gain = get_element_text_default stream ''gain'' '''',
               shown_sampleRate = rate,
               shown_gainFrequency = get_element_text_default stream ''gainFrequency'' '''',
               shown_gainUnit = get_element_text_default stream ''gainUnit'' '''',
               shown_datalogger_serialnumber =
                 get_element_text_default stream ''dataloggerSerialNumber'' '''',
               shown_sensor_serialnumber =
                 get_element_text_default stream ''sensorSerialNumber'' '''',
               shown_flags = get_element_text_default stream ''flags'' ''''\<rparr>)"

section \<open>The editor: saving\<close>

text \<open>
  The file system as far as \<^verbatim>\<open>save_xml\<close> touches it: a map from path names to files. A
  file holds the serialisation of a tree, or what an interrupted write left behind.
  Paths are the normalised strings \<^verbatim>\<open>pathlib\<close> works on.
\<close>

datatype file_data = Serialized elem | Truncated

type_synonym filesystem = "string \<Rightarrow> file_data option"

definition path_name :: "string \<Rightarrow> string" where
  "path_name p = rev (takeWhile (\<lambda>c. c \<noteq> CHR ''/'') (rev p))"

text \<open>\<^verbatim>\<open>PurePath.suffix\<close>: \<^verbatim>\<open>i = name.rfind('.')\<close>, and \<^verbatim>\<open>name[i:]\<close> when
  \<^verbatim>\<open>0 < i < len(name) - 1\<close>, else the empty string.\<close>

definition path_suffix :: "string \<Rightarrow> string" where
  "path_suffix p =
     (let name = path_name p;
          ext = rev (takeWhile (\<lambda>c. c \<noteq> CHR ''.'') (rev name))
      in if 0 < length ext \<and> length ext + 1 < length name then CHR ''.'' # ext else [])"

definition with_suffix :: "string \<Rightarrow> string \<Rightarrow> pyexn + string" where
  "with_suffix p s =
     (if path_name p = [] then Inl (ValueError ''empty name'')
      else Inr (take (length p - length (path_suffix p)) p @ s))"

text \<open>
  \<^verbatim>\<open>Path.rename\<close> is \<^verbatim>\<open>os.rename\<close>, whose meaning depends on the platform the editor runs
  on: a missing source raises \<^verbatim>\<open>FileNotFoundError\<close> everywhere; an existing target file is
  replaced silently on POSIX, and raises \<^verbatim>\<open>FileExistsError\<close> on Windows.
\<close>

datatype platform = Posix | Windows

definition rename :: "platform \<Rightarrow> string \<Rightarrow> string \<Rightarrow> filesystem \<Rightarrow> pyexn + filesystem" where
  "rename pf src dst fs =
     (case fs src of
        None \<Rightarrow> Inl FileNotFoundError
      | Some f \<Rightarrow>
          if src = dst then Inr fs
          else if pf = Windows \<and> fs dst \<noteq> None then Inl FileExistsError
          else Inr ((fs(src := None))(dst \<mapsto> f)))"

text \<open>
  \<^verbatim>\<open>self.tree.write(self.current_file, ...)\<close> either writes the serialisation or raises; when
  it raises it may have left a file under the name. Which of the two happens is the
  environment's choice, a parameter of \<^verbatim>\<open>save_xml\<close>.
\<close>

datatype write_result = Write_ok | Write_fails "file_data option"

definition tree_write :: "write_result \<Rightarrow> elem \<Rightarrow> string \<Rightarrow> filesystem \<Rightarrow> filesystem \<times> pyexn option" where
  "tree_write w r path fs =
     (case w of
        Write_ok \<Rightarrow> (fs(path \<mapsto> Serialized r), None)
      | Write_fails None \<Rightarrow> (fs, Some OSError)
      | Write_fails (Some left) \<Rightarrow> (fs(path \<mapsto> left), Some OSError))"

text \<open>The handler of \<^verbatim>\<open>save_xml\<close>: the message box, then the backup is renamed back if it
  exists; an exception of that rename leaves the handler.\<close>

definition save_failed :: "platform \<Rightarrow> pyexn \<Rightarrow> string \<Rightarrow> string \<Rightarrow> editor \<Rightarrow> filesystem \<Rightarrow> (editor \<times> filesystem) \<times> pyexn option" where
  "save_failed pf ex backup_path cur st fs =
     (let st' = st\<lparr>notices := notices st @ [Critical ''Failed to save XML'' ex]\<rparr>
      in if fs backup_path \<noteq> None then
           (case rename pf backup_path cur fs of
              Inl ex' \<Rightarrow> ((st', fs), Some ex')
            | Inr fs' \<Rightarrow> ((st', fs'), None))
         else ((st', fs), None))"

text \<open>
  \<^verbatim>\<open>save_xml\<close>: the session and the file system afterwards, and the exception that left the
  function, if any (when \<^verbatim>\<open>with_suffix\<close> raises, the handler reads the unbound
  \<^verbatim>\<open>backup_path\<close>).
\<close>

definition save_xml :: "platform \<Rightarrow> write_result \<Rightarrow> editor \<Rightarrow> filesystem \<Rightarrow> (editor \<times> filesystem) \<times> pyexn option" where
  "save_xml pf w st fs =
     (case (current_file st, root st) of
        (Some cur, Some r) \<Rightarrow>
          if cur = [] then ((st, fs), None)
          else
            (case with_suffix cur ''.xml.bak'' of
               Inl ex \<Rightarrow>
                 ((st\<lparr>notices := notices st @ [Critical ''Failed to save XML'' ex]\<rparr>, fs),
                  Some UnboundLocalError)
             | Inr backup_path \<Rightarrow>
                 (case rename pf cur backup_path fs of
                    Inl ex \<Rightarrow> save_failed pf ex backup_path cur st fs
                  | Inr fs1 \<Rightarrow>
                      (case tree_write w r cur fs1 of
                         (fs2, None) \<Rightarrow>
                           ((st\<lparr>unsaved_changes := False,
                                notices := notices st @ [Status ''File saved successfully'']\<rparr>,
                             fs2), None)
                       | (fs2, Some ex) \<Rightarrow> save_failed pf ex backup_path cur st fs2)))
      | _ \<Rightarrow> ((st, fs), None))"

section \<open>The analyzer\<close>

text \<open>
  The values the analyzer stores in its dictionaries: \<^verbatim>\<open>None\<close>, a string, the list of
  decimation dictionaries of a datalogger, and the string \<^verbatim>\<open>json.dumps\<close> makes of such a
  list (kept as the list it serialises); \<^verbatim>\<open>json.dumps\<close> is applied to nothing else. The
  missing value \<^verbatim>\<open>NaN\<close> appears in data frames only. A dictionary keeps its insertion
  order.
\<close>

datatype pyval =
  PyNone | PyStr string | PyList "(string \<times> string option) list list"
  | JsonDumps "(string \<times> string option) list list" | PyNaN

type_synonym pydict = "(string \<times> pyval) list"

fun opt :: "string option \<Rightarrow> pyval" where
  "opt None = PyNone"
| "opt (Some s) = PyStr s"

text \<open>Python truthiness of these values, and \<^verbatim>\<open>a or b\<close>.\<close>

fun truthy :: "pyval \<Rightarrow> bool" where
  "truthy PyNone = False"
| "truthy (PyStr s) = (s \<noteq> [])"
| "truthy (PyList l) = (l \<noteq> [])"
| "truthy (JsonDumps l) = True"
| "truthy PyNaN = True"

fun json_dumps :: "pyval \<Rightarrow> pyval" where
  "json_dumps (PyList l) = JsonDumps l"
| "json_dumps v = v"

definition py_or :: "pyval \<Rightarrow> pyval \<Rightarrow> pyval" where
  "py_or a b = (if truthy a then a else b)"

text \<open>\<^verbatim>\<open>d.update(other)\<close>: every item of \<^verbatim>\<open>other\<close> is stored in \<^verbatim>\<open>d\<close>, in order.\<close>

definition dict_update :: "pydict \<Rightarrow> pydict \<Rightarrow> pydict" where
  "dict_update d other = fold (\<lambda>(k, v). AList.update k v) other d"

datatype report =
  Error_parsing_inventory pyexn | Error_processing_stream pyexn | Error_exporting_CSV pyexn

text \<open>The lookups are keyed by \<^verbatim>\<open>publicID\<close>, which is \<^verbatim>\<open>None\<close> for an element without the
  attribute.\<close>

type_synonym lookup = "(string option \<times> pydict) list"

record analyzer =
  sensor_lookup :: lookup
  datalogger_lookup :: lookup
  response_lookup :: lookup
  paz_lookup :: lookup
  unified_data :: "pydict list"
  stderr_lines :: "report list"

definition analyzer_init :: analyzer where
  "analyzer_init =
     \<lparr>sensor_lookup = [], datalogger_lookup = [], response_lookup = [], paz_lookup = [],
      unified_data = [], stderr_lines = []\<rparr>"

subsection \<open>\<^verbatim>\<open>_build_lookup_tables\<close>\<close>

definition sensor_info :: "elem \<Rightarrow> pydict" where
  "sensor_info sensor =
     [(''sensor_name'', PyStr (get_default sensor ''name'' '''')),
      (''sensor_description'', opt (get_element_text sensor ''description'')),
      (''sensor_manufacturer'', opt (get_element_text sensor ''manufacturer'')),
      (''sensor_model'', opt (get_element_text sensor ''model'')),
      (''sensor_type'', opt (get_element_text sensor ''type'')),
      (''sensor_unit'', opt (get_element_text sensor ''unit'')),
      (''sensor_response'', PyStr (get_default sensor ''response'' '''')),
      (''sensor_remark'', opt (get_element_text sensor ''remark'')),
      (''sensor_serial_number_equipment'', opt (get_element_text sensor ''serialNumber''))]"

definition decimation_info :: "elem \<Rightarrow> (string \<times> string option) list" where
  "decimation_info decimation =
     [(''sampleRateNumerator'', get_element_text decimation ''sampleRateNumerator''),
      (''sampleRateDenominator'', get_element_text decimation ''sampleRateDenominator''),
      (''analogueFilterChain'', get_element_text decimation ''analogueFilterChain''),
      (''digitalFilterChain'', get_element_text decimation ''digitalFilterChain'')]"

definition datalogger_info :: "elem \<Rightarrow> pydict" where
  "datalogger_info datalogger =
     [(''datalogger_name'', PyStr (get_default datalogger ''name'' '''')),
      (''datalogger_description'', opt (get_element_text datalogger ''description'')),
      (''datalogger_manufacturer'', opt (get_element_text datalogger ''manufacturer'')),
      (''datalogger_model'', opt (get_element_text datalogger ''model'')),
      (''datalogger_type'', opt (get_element_text datalogger ''type'')),
      (''datalogger_remark'', opt (get_element_text datalogger ''remark'')),
      (''datalogger_serial_number_equipment'', opt (get_element_text datalogger ''serialNumber'')),
      (''decimations'', PyList (map decimation_info (findall_desc datalogger ''decimation'')))]"

definition response_info :: "elem \<Rightarrow> pydict" where
  "response_info response =
     [(''response_name'', PyStr (get_default response ''name'' '''')),
      (''response_gain'', opt (get_element_text response ''gain'')),
      (''response_frequency'', opt (get_element_text response ''frequency'')),
      (''response_gainFrequency'', opt (get_element_text response ''gainFrequency''))]"

definition paz_info :: "elem \<Rightarrow> pydict" where
  "paz_info paz =
     [(''paz_type'', opt (get_element_text paz ''type'')),
      (''paz_gain'', opt (get_element_text paz ''gain'')),
      (''paz_gainFrequency'', opt (get_element_text paz ''gainFrequency'')),
      (''paz_normalizationFactor'', opt (get_element_text paz ''normalizationFactor'')),
      (''paz_normalizationFrequency'', opt (get_element_text paz ''normalizationFrequency'')),
      (''paz_numberOfPoles'', opt (get_element_text paz ''numberOfPoles'')),
      (''paz_numberOfZeros'', opt (get_element_text paz ''numberOfZeros''))]"

text \<open>One of the four loops: every element found is stored under its \<^verbatim>\<open>publicID\<close>, a later
  one replacing an earlier one with the same identifier.\<close>

definition index_by_publicID :: "(elem \<Rightarrow> pydict) \<Rightarrow> elem list \<Rightarrow> lookup \<Rightarrow> lookup" where
  "index_by_publicID info els lk = fold (\<lambda>el. AList.update (get el ''publicID'') (info el)) els lk"

definition build_lookup_tables :: "elem \<Rightarrow> analyzer \<Rightarrow> analyzer" where
  "build_lookup_tables inventory az =
     az\<lparr>sensor_lookup :=
          index_by_publicID sensor_info (findall_desc inventory ''sensor'') (sensor_lookup az),
        datalogger_lookup :=
          index_by_publicID datalogger_info (findall_desc inventory ''datalogger'')
            (datalogger_lookup az),
        response_lookup :=
          index_by_publicID response_info (findall_desc inventory ''response'')
            (response_lookup az),
        paz_lookup :=
          index_by_publicID paz_info (findall_desc inventory ''responsePAZ'') (paz_lookup az)\<rparr>"

subsection \<open>\<^verbatim>\<open>_process_stream\<close>\<close>

text \<open>The loop over the datalogger's items: every item but \<^verbatim>\<open>decimations\<close> is stored; a
  non-empty decimation list is stored serialised under \<^verbatim>\<open>decimation_info\<close>.\<close>

definition add_datalogger :: "pydict \<Rightarrow> pydict \<Rightarrow> pydict" where
  "add_datalogger info d =
     fold (\<lambda>(key, v) d'.
             if key \<noteq> ''decimations'' then AList.update key v d'
             else if truthy v then AList.update ''decimation_info'' (json_dumps v) d'
             else d')
          info d"

fun join :: "string \<Rightarrow> string list \<Rightarrow> string" where
  "join sep [] = []"
| "join sep [s] = s"
| "join sep (s # t # ss) = s @ sep @ join sep (t # ss)"

definition stream_comments :: "elem \<Rightarrow> string list" where
  "stream_comments stream =
     concat (map (\<lambda>comment. case get_element_text comment ''text'' of
                               None \<Rightarrow> []
                             | Some comment_text \<Rightarrow> if comment_text \<noteq> [] then [comment_text] else [])
                 (findall_desc stream ''comment''))"

text \<open>
  The body of the \<^verbatim>\<open>try\<close> in \<^verbatim>\<open>_process_stream\<close>, up to the append. Its statements read
  attributes, search children, store dictionary items, serialise strings and join strings:
  none of them converts a text to a number, and none can raise on a parsed element, so the
  body always reaches its end (\<open>Inr\<close>).
\<close>

definition stream_data ::
  "lookup \<Rightarrow> lookup \<Rightarrow> string \<Rightarrow> string option \<Rightarrow> string option \<Rightarrow>
   string \<Rightarrow> string option \<Rightarrow> string option \<Rightarrow>
   string \<Rightarrow> string option \<Rightarrow> string option \<Rightarrow> string option \<Rightarrow> elem \<Rightarrow> pyexn + pydict" where
  "stream_data sensors dataloggers network_code network_start network_end
     sta_code station_start station_end location_code latitude longitude elevation stream =
     (let d0 =
            [(''network'', PyStr network_code),
             (''network_start'', opt network_start),
             (''network_end'', opt network_end),
             (''station'', PyStr sta_code),
             (''station_start'', opt station_start),
             (''station_end'', opt station_end),
             (''location'', PyStr location_code),
             (''latitude'', opt latitude),
             (''longitude'', opt longitude),
             (''elevation'', opt elevation),
             (''channel'', PyStr (get_default stream ''code'' '''')),
             (''stream_start'', opt (get_element_text stream ''start'')),
             (''stream_end'', opt (get_element_text stream ''end'')),
             (''depth'', opt (get_element_text stream ''depth'')),
             (''azimuth'', opt (get_element_text stream ''azimuth'')),
             (''dip'', opt (get_element_text stream ''dip'')),
             (''gain'', opt (get_element_text stream ''gain'')),
             (''gainFrequency'', opt (get_element_text stream ''gainFrequency'')),
             (''gainUnit'', opt (get_element_text stream ''gainUnit'')),
             (''format'', opt (get_element_text stream ''format'')),
             (''flags'', opt (get_element_text stream ''flags'')),
             (''restricted'', opt (get_element_text stream ''restricted'')),
             (''shared'', opt (get_element_text stream ''shared'')),
             (''sensor_serial_number_stream'', opt (get_element_text stream ''sensorSerialNumber'')),
             (''datalogger_serial_number_stream'',
                opt (get_element_text stream ''dataloggerSerialNumber'')),
             (''sensorChannel'', opt (get_element_text stream ''sensorChannel'')),
             (''dataloggerChannel'', opt (get_element_text stream ''dataloggerChannel'')),
             (''clockSerialNumber'', opt (get_element_text stream ''clockSerialNumber'')),
             (''sampleRateNumerator'', opt (get_element_text stream ''sampleRateNumerator'')),
             (''sampleRateDenominator'', opt (get_element_text stream ''sampleRateDenominator'')),
             (''clockDrift'', opt (get_element_text stream ''clockDrift'')),
             (''clockModel'', opt (get_element_text stream ''clockModel''))];
          d1 = (case map_of sensors (get stream ''sensor'') of
                  None \<Rightarrow> d0
                | Some info \<Rightarrow> dict_update d0 info);
          d2 = (case map_of dataloggers (get stream ''datalogger'') of
                  None \<Rightarrow> d1
                | Some info \<Rightarrow> add_datalogger info d1);
          comments = stream_comments stream;
          d3 = (if comments \<noteq> [] then AList.update ''stream_comments'' (PyStr (join ''; '' comments)) d2
                else d2)
      in Inr d3)"

definition process_stream ::
  "string \<Rightarrow> string option \<Rightarrow> string option \<Rightarrow> string \<Rightarrow> string option \<Rightarrow> string option \<Rightarrow>
   string \<Rightarrow> string option \<Rightarrow> string option \<Rightarrow> string option \<Rightarrow> elem \<Rightarrow> analyzer \<Rightarrow> analyzer" where
  "process_stream network_code network_start network_end sta_code station_start station_end
     location_code latitude longitude elevation stream az =
     (case stream_data (sensor_lookup az) (datalogger_lookup az)
             network_code network_start network_end sta_code station_start station_end
             location_code latitude longitude elevation stream of
        Inr d \<Rightarrow> az\<lparr>unified_data := unified_data az @ [d]\<rparr>
      | Inl e \<Rightarrow> az\<lparr>stderr_lines := stderr_lines az @ [Error_processing_stream e]\<rparr>)"

subsection \<open>The walk over the hierarchy\<close>

definition process_location ::
  "string \<Rightarrow> string option \<Rightarrow> string option \<Rightarrow> string \<Rightarrow> string option \<Rightarrow> string option \<Rightarrow>
   elem \<Rightarrow> analyzer \<Rightarrow> analyzer" where
  "process_location network_code network_start network_end sta_code station_start station_end
     location az =
     fold (process_stream network_code network_start network_end
             sta_code station_start station_end
             (get_default location ''code'' '''')
             (get_element_text location ''latitude'')
             (get_element_text location ''longitude'')
             (get_element_text location ''elevation''))
          (findall location ''stream'') az"

definition process_station ::
  "string \<Rightarrow> string option \<Rightarrow> string option \<Rightarrow> elem \<Rightarrow> analyzer \<Rightarrow> analyzer" where
  "process_station network_code network_start network_end station az =
     fold (process_location network_code network_start network_end
             (get_default station ''code'' '''')
             (get_element_text station ''start'')
             (get_element_text station ''end''))
          (findall_desc station ''sensorLocation'') az"

definition process_networks :: "elem \<Rightarrow> analyzer \<Rightarrow> analyzer" where
  "process_networks inventory az =
     fold (\<lambda>network.
             fold (process_station (get_default network ''code'' '''')
                     (get_element_text network ''start'')
                     (get_element_text network ''end''))
                  (findall_desc network ''station''))
          (findall_desc inventory ''network'') az"

subsection \<open>\<^verbatim>\<open>parse_inventory\<close>\<close>

text \<open>
  The argument is what \<^verbatim>\<open>ET.parse(xml_file).getroot()\<close> gave: the root element, or the
  exception it raised. \<open>parse_inventory_try\<close> is the body of the \<^verbatim>\<open>try\<close>: the analyzer as
  the body left it and the exception that ended it, if any. \<open>parse_inventory\<close> adds the
  handler, \<^verbatim>\<open>except Exception\<close>, which prints and returns: its second component, the
  exception that reaches the caller, is always \<open>None\<close>.
\<close>

definition parse_inventory_try :: "pyexn + elem \<Rightarrow> analyzer \<Rightarrow> analyzer \<times> pyexn option" where
  "parse_inventory_try parsed az =
     (case parsed of
        Inl e \<Rightarrow> (az, Some e)
      | Inr root_elem \<Rightarrow>
          (case find_elem root_elem ''Inventory'' of
             None \<Rightarrow> (az, Some (ValueError ''No Inventory element found in XML''))
           | Some inventory \<Rightarrow>
               (process_networks inventory (build_lookup_tables inventory az), None)))"

definition parse_inventory :: "pyexn + elem \<Rightarrow> analyzer \<Rightarrow> analyzer \<times> pyexn option" where
  "parse_inventory parsed az =
     (case parse_inventory_try parsed az of
        (az', None) \<Rightarrow> (az', None)
      | (az', Some e) \<Rightarrow>
          (az'\<lparr>stderr_lines := stderr_lines az' @ [Error_parsing_inventory e]\<rparr>, None))"

subsection \<open>\<^verbatim>\<open>export_to_csv\<close>\<close>

text \<open>
  The data frame \<^verbatim>\<open>pd.DataFrame(self.unified_data)\<close>: its columns are the keys of the records
  in the order of their first appearance, and a record without a key has the missing value
  \<^verbatim>\<open>NaN\<close> in that column. \<^verbatim>\<open>df.replace({None: '', '': ''})\<close> turns every missing cell,
  \<^verbatim>\<open>None\<close> or \<^verbatim>\<open>NaN\<close>, into the empty string. A row is kept as the dictionary from the
  columns to its cells.
\<close>

record dataframe =
  columns :: "string list"
  rows :: "pydict list"

definition first_seen :: "string list \<Rightarrow> string list" where
  "first_seen ks = rev (remdups (rev ks))"

definition DataFrame :: "pydict list \<Rightarrow> dataframe" where
  "DataFrame data =
     (let cols = first_seen (concat (map (map fst) data))
      in \<lparr>columns = cols,
          rows = map (\<lambda>r. map (\<lambda>k. (k, case map_of r k of None \<Rightarrow> PyNaN | Some v \<Rightarrow> v)) cols)
                   data\<rparr>)"

fun replace_missing :: "pyval \<Rightarrow> pyval" where
  "replace_missing PyNone = PyStr []"
| "replace_missing PyNaN = PyStr []"
| "replace_missing v = v"

definition df_replace :: "dataframe \<Rightarrow> dataframe" where
  "df_replace df = df\<lparr>rows := map (map (\<lambda>(k, v). (k, replace_missing v))) (rows df)\<rparr>"

text \<open>\<^verbatim>\<open>x[key]\<close> on a row, and the lambda \<^verbatim>\<open>x[a] or x[b]\<close>, which reads \<^verbatim>\<open>x[b]\<close> only when
  \<^verbatim>\<open>x[a]\<close> is falsy.\<close>

definition row_get :: "pydict \<Rightarrow> string \<Rightarrow> pyexn + pyval" where
  "row_get x key = (case map_of x key of None \<Rightarrow> Inl (KeyError key) | Some v \<Rightarrow> Inr v)"

definition row_or :: "string \<Rightarrow> string \<Rightarrow> pydict \<Rightarrow> pyexn + pyval" where
  "row_or a b x =
     (case row_get x a of
        Inl e \<Rightarrow> Inl e
      | Inr va \<Rightarrow> if truthy va then Inr va else row_get x b)"

text \<open>\<^verbatim>\<open>df.apply(f, axis=1)\<close>: the results row by row, or the first exception.\<close>

fun df_apply :: "(pydict \<Rightarrow> pyexn + pyval) \<Rightarrow> pydict list \<Rightarrow> pyexn + pyval list" where
  "df_apply f [] = Inr []"
| "df_apply f (x # xs) =
     (case f x of
        Inl e \<Rightarrow> Inl e
      | Inr v \<Rightarrow> (case df_apply f xs of Inl e \<Rightarrow> Inl e | Inr vs \<Rightarrow> Inr (v # vs)))"

text \<open>\<^verbatim>\<open>df[key] = series\<close>: the column is replaced, or added as the last one.\<close>

definition df_assign :: "string \<Rightarrow> pyval list \<Rightarrow> dataframe \<Rightarrow> dataframe" where
  "df_assign key series df =
     \<lparr>columns = (if key \<in> set (columns df) then columns df else columns df @ [key]),
      rows = map (\<lambda>(x, v). AList.update key v x) (zip (rows df) series)\<rparr>"

text \<open>\<^verbatim>\<open>df.drop(columns=keys)\<close> raises \<^verbatim>\<open>KeyError\<close> when one of the keys is not a column.\<close>

definition df_drop :: "string list \<Rightarrow> dataframe \<Rightarrow> pyexn + dataframe" where
  "df_drop keys df =
     (case filter (\<lambda>k. k \<notin> set (columns df)) keys of
        k # _ \<Rightarrow> Inl (KeyError k)
      | [] \<Rightarrow> Inr \<lparr>columns = filter (\<lambda>k. k \<notin> set keys) (columns df),
                    rows = map (filter (\<lambda>(k, v). k \<notin> set keys)) (rows df)\<rparr>)"

definition coalesce_column :: "string \<Rightarrow> string \<Rightarrow> string \<Rightarrow> dataframe \<Rightarrow> pyexn + dataframe" where
  "coalesce_column key a b df =
     (case df_apply (row_or a b) (rows df) of
        Inl e \<Rightarrow> Inl e
      | Inr series \<Rightarrow> Inr (df_assign key series df))"

text \<open>The body of the \<^verbatim>\<open>try\<close> for a non-empty \<^verbatim>\<open>unified_data\<close>: the frame that is written
  to the CSV file, or the exception.\<close>

definition export_frame :: "pydict list \<Rightarrow> pyexn + dataframe" where
  "export_frame data =
     (case coalesce_column ''sensor_serial_number''
             ''sensor_serial_number_stream'' ''sensor_serial_number_equipment''
             (df_replace (DataFrame data)) of
        Inl e \<Rightarrow> Inl e
      | Inr df1 \<Rightarrow>
          (case coalesce_column ''datalogger_serial_number''
                  ''datalogger_serial_number_stream'' ''datalogger_serial_number_equipment'' df1 of
             Inl e \<Rightarrow> Inl e
           | Inr df2 \<Rightarrow>
               df_drop [''sensor_serial_number_stream'', ''sensor_serial_number_equipment'',
                        ''datalogger_serial_number_stream'', ''datalogger_serial_number_equipment'']
                 df2))"

text \<open>\<^verbatim>\<open>export_to_csv\<close>: the analyzer afterwards and the table written, if one was.\<close>

definition export_to_csv :: "analyzer \<Rightarrow> analyzer \<times> dataframe option" where
  "export_to_csv az =
     (if unified_data az = [] then (az, None)
      else (case export_frame (unified_data az) of
              Inl e \<Rightarrow> (az\<lparr>stderr_lines := stderr_lines az @ [Error_exporting_CSV e]\<rparr>, None)
            | Inr df \<Rightarrow> (az, Some df)))"

text \<open>
  The coalescing rule in the specification's words: the stream-level value when it is
  present and non-empty, otherwise the equipment-level value, which is empty when absent.
  (The analyzer stores strings and \<^verbatim>\<open>None\<close> under these keys; the other values are covered
  to make the function total.)
\<close>

definition effective_serial :: "pydict \<Rightarrow> string \<Rightarrow> string \<Rightarrow> pyval" where
  "effective_serial r stream_key equipment_key =
     (let equipment = (case map_of r equipment_key of
                         None \<Rightarrow> PyStr [] | Some PyNone \<Rightarrow> PyStr [] | Some PyNaN \<Rightarrow> PyStr []
                       | Some v \<Rightarrow> v)
      in case map_of r stream_key of
           None \<Rightarrow> equipment
         | Some PyNone \<Rightarrow> equipment
         | Some PyNaN \<Rightarrow> equipment
         | Some (PyStr s) \<Rightarrow> if s = [] then equipment else PyStr s
         | Some (PyList l) \<Rightarrow> if l = [] then equipment else PyList l
         | Some (JsonDumps l) \<Rightarrow> JsonDumps l)"

text \<open>
  The rows of the exported table in closed form: a cell after \<^verbatim>\<open>replace\<close>, a row of the
  frame, and the row that is written.
\<close>

definition cellv :: "pydict \<Rightarrow> string \<Rightarrow> pyval" where
  "cellv d k = replace_missing (case map_of d k of None \<Rightarrow> PyNaN | Some v \<Rightarrow> v)"

definition row0 :: "string list \<Rightarrow> pydict \<Rightarrow> pydict" where
  "row0 cols d = map (\<lambda>k. (k, cellv d k)) cols"

definition serial_keys :: "string list" where
  "serial_keys = [''sensor_serial_number_stream'', ''sensor_serial_number_equipment'',
                  ''datalogger_serial_number_stream'', ''datalogger_serial_number_equipment'']"

definition final_row :: "string list \<Rightarrow> pydict \<Rightarrow> pydict" where
  "final_row cols d =
     filter (\<lambda>(k, v). k \<notin> set serial_keys)
       (AList.update ''datalogger_serial_number''
          (effective_serial d ''datalogger_serial_number_stream'' ''datalogger_serial_number_equipment'')
          (AList.update ''sensor_serial_number''
             (effective_serial d ''sensor_serial_number_stream'' ''sensor_serial_number_equipment'')
             (row0 cols d)))"

subsection \<open>The streams of a document\<close>

text \<open>
  The (network, station, location, stream) combinations the nested loops of
  \<^verbatim>\<open>_process_networks\<close> visit, in the order they visit them, and the record made of one.
\<close>

definition visited :: "elem \<Rightarrow> (elem \<times> elem \<times> elem \<times> elem) list" where
  "visited inventory =
     concat (map (\<lambda>network.
       concat (map (\<lambda>station.
         concat (map (\<lambda>location.
           map (\<lambda>stream. (network, station, location, stream)) (findall location ''stream''))
           (findall_desc station ''sensorLocation'')))
         (findall_desc network ''station'')))
       (findall_desc inventory ''network''))"

definition record_of :: "lookup \<Rightarrow> lookup \<Rightarrow> elem \<times> elem \<times> elem \<times> elem \<Rightarrow> pyexn + pydict" where
  "record_of sensors dataloggers v =
     (case v of (network, station, location, stream) \<Rightarrow>
        stream_data sensors dataloggers
          (get_default network ''code'' '''')
          (get_element_text network ''start'') (get_element_text network ''end'')
          (get_default station ''code'' '''')
          (get_element_text station ''start'') (get_element_text station ''end'')
          (get_default location ''code'' '''')
          (get_element_text location ''latitude'') (get_element_text location ''longitude'')
          (get_element_text location ''elevation'') stream)"

text \<open>
  One analyzer comes from another by resolving streams when lookups and error reports are
  the same and the resolutions, all successful, are the records added.
\<close>

definition resolved :: "analyzer \<Rightarrow> analyzer \<Rightarrow> (pyexn + pydict) list \<Rightarrow> bool" where
  "resolved az az' rs \<longleftrightarrow>
     sensor_lookup az' = sensor_lookup az \<and> datalogger_lookup az' = datalogger_lookup az
     \<and> response_lookup az' = response_lookup az \<and> paz_lookup az' = paz_lookup az
     \<and> stderr_lines az' = stderr_lines az
     \<and> map Inr (unified_data az') = map Inr (unified_data az) @ rs"

text \<open>
  The \<^verbatim>\<open>stream\<close> elements that are direct children of a \<^verbatim>\<open>sensorLocation\<close>, anywhere in a
  tree, in document order: one preorder walk.
\<close>

fun doc_streams :: "elem \<Rightarrow> elem list" where
  "doc_streams (Elem t a x cs) =
     concat (map (\<lambda>c. (if t = sc3 ''sensorLocation'' \<and> tag c = sc3 ''stream'' then [c] else [])
                       @ doc_streams c) cs)"

text \<open>
  A valid document follows the hierarchy of the schema: the root \<^verbatim>\<open>seiscomp\<close> element holds
  one \<^verbatim>\<open>Inventory\<close>; networks are children of the inventory, stations children of networks,
  sensor locations children of stations, and no network, station or sensor location
  occurs anywhere else.
\<close>

definition hierarchy_tag :: "string \<Rightarrow> bool" where
  "hierarchy_tag t \<longleftrightarrow> t = sc3 ''network'' \<or> t = sc3 ''station'' \<or> t = sc3 ''sensorLocation''"

definition hier_free :: "elem \<Rightarrow> bool" where
  "hier_free e = list_all (\<lambda>x. \<not> hierarchy_tag (tag x)) (e # descendants e)"

definition valid_location :: "elem \<Rightarrow> bool" where
  "valid_location location = list_all hier_free (children location)"

definition valid_station :: "elem \<Rightarrow> bool" where
  "valid_station station =
     list_all (\<lambda>c. if tag c = sc3 ''sensorLocation'' then valid_location c else hier_free c)
       (children station)"

definition valid_network :: "elem \<Rightarrow> bool" where
  "valid_network network =
     list_all (\<lambda>c. if tag c = sc3 ''station'' then valid_station c else hier_free c)
       (children network)"

definition valid_inventory :: "elem \<Rightarrow> bool" where
  "valid_inventory inventory =
     list_all (\<lambda>c. if tag c = sc3 ''network'' then valid_network c else hier_free c)
       (children inventory)"

definition valid_document :: "elem \<Rightarrow> bool" where
  "valid_document root_elem \<longleftrightarrow>
     tag root_elem = sc3 ''seiscomp''
     \<and> (case findall root_elem ''Inventory'' of
          [inventory] \<Rightarrow>
            valid_inventory inventory
            \<and> list_all (\<lambda>c. if tag c = sc3 ''Inventory'' then True else hier_free c)
                (children root_elem)
        | _ \<Rightarrow> False)"

section \<open>Example documents\<close>

text \<open>A document with one network, station and sensor location around the given stream,
  and an editing session on it with the stream selected.\<close>

definition document_with :: "elem \<Rightarrow> elem" where
  "document_with stream =
     Elem (sc3 ''seiscomp'') [] None
       [Elem (sc3 ''Inventory'') [] None
          [Elem (sc3 ''network'') [(''code'', ''GE'')] None
             [Elem (sc3 ''station'') [(''code'', ''ABC'')] None
                [Elem (sc3 ''sensorLocation'') [(''code'', '''')] None [stream]]]]]"

definition session_on :: "elem \<Rightarrow> editor" where
  "session_on stream =
     \<lparr>current_file = Some ''inventory.xml'', root = Some (document_with stream),
      current_element = Some [0, 0, 0, 0, 0], unsaved_changes = False, notices = []\<rparr>"

definition stream_BHZ :: elem where
  "stream_BHZ = Elem (sc3 ''stream'') [(''code'', ''BHZ'')] None
     [Elem (sc3 ''sampleRateNumerator'') [] (Some ''100'') [],
      Elem (sc3 ''sampleRateDenominator'') [] (Some ''1'') []]"

text \<open>A stream with a gain, and a form that renames it, sets its depth and flags, blanks
  its gain and gives the sample rate 0.5.\<close>

definition stream_with_gain :: elem where
  "stream_with_gain = Elem (sc3 ''stream'') [(''code'', ''BHZ'')] None
     [Elem (sc3 ''gain'') [] (Some ''1.0'') [],
      Elem (sc3 ''sampleRateNumerator'') [] (Some ''100'') [],
      Elem (sc3 ''sampleRateDenominator'') [] (Some ''1'') []]"

definition edited_stream_form :: stream_form where
  "edited_stream_form =
     \<lparr>stream_code = ''HHZ'', stream_start = '''', stream_end = '''', stream_depth = ''10'',
      stream_azimuth = '''', stream_dip = '''', stream_gain = '''', stream_sampleRate = ''0.5'',
      stream_gainFrequency = '''', stream_gainUnit = '''',
      stream_datalogger_serialnumber = '''', stream_sensor_serialnumber = '''',
      stream_flags = ''G''\<rparr>"

definition stream_bare :: elem where
  "stream_bare = Elem (sc3 ''stream'') [(''code'', ''BHZ'')] None []"

definition stream_two_gains :: elem where
  "stream_two_gains = Elem (sc3 ''stream'') [(''code'', ''BHZ'')] None
     [Elem (sc3 ''gain'') [] (Some ''1.0'') [], Elem (sc3 ''gain'') [] (Some ''2.0'') []]"

definition stream_empty_denominator :: elem where
  "stream_empty_denominator = Elem (sc3 ''stream'') [(''code'', ''BHZ'')] None
     [Elem (sc3 ''sampleRateNumerator'') [] (Some ''100'') [],
      Elem (sc3 ''sampleRateDenominator'') [] None []]"

definition stream_zero_denominator :: elem where
  "stream_zero_denominator = Elem (sc3 ''stream'') [(''code'', ''BHZ'')] None
     [Elem (sc3 ''sampleRateNumerator'') [] (Some ''100'') [],
      Elem (sc3 ''sampleRateDenominator'') [] (Some ''0'') []]"

definition stream_abc_numerator :: elem where
  "stream_abc_numerator = Elem (sc3 ''stream'') [(''code'', ''BHZ'')] None
     [Elem (sc3 ''sampleRateNumerator'') [] (Some ''abc'') [],
      Elem (sc3 ''sampleRateDenominator'') [] (Some ''1'') []]"

definition blank_stream_form :: stream_form where
  "blank_stream_form =
     \<lparr>stream_code = ''BHZ'', stream_start = '''', stream_end = '''', stream_depth = '''',
      stream_azimuth = '''', stream_dip = '''', stream_gain = '''', stream_sampleRate = '''',
      stream_gainFrequency = '''', stream_gainUnit = '''',
      stream_datalogger_serialnumber = '''', stream_sensor_serialnumber = '''',
      stream_flags = ''''\<rparr>"

definition blank_station_form :: station_form where
  "blank_station_form =
     \<lparr>station_code = '''', station_name = '''', station_description = '''',
      station_lat = '''', station_lon = '''', station_elevation = ''''\<rparr>"

definition blank_equipment_form :: equipment_form where
  "blank_equipment_form =
     \<lparr>equipment_name = '''', equipment_type = '''', equipment_model = '''',
      equipment_manufacturer = '''', equipment_serial = ''''\<rparr>"

definition station_ABC :: elem where
  "station_ABC = Elem (sc3 ''station'') [(''code'', ''ABC'')] None
     [Elem (sc3 ''description'') [] (Some ''old'') []]"

definition dirty_session :: editor where
  "dirty_session = (session_on stream_BHZ)\<lparr>unsaved_changes := True\<rparr>"

definition disk :: filesystem where
  "disk = [''inventory.xml'' \<mapsto> Serialized (document_with stream_bare)]"

definition record_both :: pydict where
  "record_both =
     [(''channel'', PyStr ''BHZ''),
      (''sensor_serial_number_stream'', PyStr ''S1''),
      (''datalogger_serial_number_stream'', PyNone),
      (''sensor_serial_number_equipment'', PyStr ''E1''),
      (''datalogger_serial_number_equipment'', PyStr ''D1'')]"

definition record_unresolved :: pydict where
  "record_unresolved =
     [(''channel'', PyStr ''BHN''),
      (''sensor_serial_number_stream'', PyNone),
      (''datalogger_serial_number_stream'', PyNone)]"

text \<open>A document with one stream per given depth text, all in one sensor location, and the
  ten depths of which the fifth is not a number.\<close>

definition depths_document :: "string list \<Rightarrow> elem" where
  "depths_document ds =
     Elem (sc3 ''seiscomp'') [] None
       [Elem (sc3 ''Inventory'') [] None
          [Elem (sc3 ''network'') [(''code'', ''GE'')] None
             [Elem (sc3 ''station'') [(''code'', ''ABC'')] None
                [Elem (sc3 ''sensorLocation'') [(''code'', '''')] None
                   (map (\<lambda>d. Elem (sc3 ''stream'') [(''code'', ''BHZ'')] None
                                [Elem (sc3 ''depth'') [] (Some d) []]) ds)]]]]"

definition ten_depths :: "string list" where
  "ten_depths = [''0'', ''0'', ''0'', ''0'', ''abc'', ''0'', ''0'', ''0'', ''0'', ''0'']"

text \<open>A document with a sensor and two stations, the first with two sensor locations.\<close>

definition two_station_inventory :: elem where
  "two_station_inventory =
     Elem (sc3 ''Inventory'') [] None
       [Elem (sc3 ''sensor'') [(''publicID'', ''Sensor/1''), (''name'', ''STS-2'')] None
          [Elem (sc3 ''serialNumber'') [] (Some ''E1'') []],
        Elem (sc3 ''network'') [(''code'', ''GE'')] None
          [Elem (sc3 ''station'') [(''code'', ''ABC'')] None
             [Elem (sc3 ''sensorLocation'') [(''code'', ''00'')] None
                [Elem (sc3 ''stream'') [(''code'', ''BHZ''), (''sensor'', ''Sensor/1'')] None [],
                 Elem (sc3 ''stream'') [(''code'', ''BHN'')] None []],
              Elem (sc3 ''sensorLocation'') [(''code'', ''10'')] None
                [Elem (sc3 ''stream'') [(''code'', ''HHZ'')] None []]],
           Elem (sc3 ''station'') [(''code'', ''XYZ'')] None
             [Elem (sc3 ''sensorLocation'') [(''code'', '''')] None
                [Elem (sc3 ''stream'') [(''code'', ''LHZ'')] None []]]]]"

definition two_station_document :: elem where
  "two_station_document = Elem (sc3 ''seiscomp'') [] None [two_station_inventory]"

text \<open>A document without the \<^verbatim>\<open>Inventory\<close> element.\<close>

definition config_document :: elem where
  "config_document = Elem (sc3 ''seiscomp'') [] None [Elem (sc3 ''Config'') [] None []]"

text \<open>An inventory that breaks the hierarchy: a network inside a network.\<close>

definition nested_network_inventory :: elem where
  "nested_network_inventory =
     Elem (sc3 ''Inventory'') [] None
       [Elem (sc3 ''network'') [(''code'', ''GE'')] None
          [Elem (sc3 ''network'') [(''code'', ''XX'')] None
             [Elem (sc3 ''station'') [(''code'', ''ABC'')] None
                [Elem (sc3 ''sensorLocation'') [(''code'', '''')] None
                   [Elem (sc3 ''stream'') [(''code'', ''BHZ'')] None []]]]]]"

section \<open>Properties\<close>

lemma sc3_eq [simp]: "sc3 a = sc3 b \<longleftrightarrow> a = b"
  by (simp add: sc3_def)

lemma find_elem_None_iff: "find_elem e t = None \<longleftrightarrow> findall e t = []"
  by (auto simp add: find_elem_def findall_def find_None_iff filter_empty_conv)

subsection \<open>Updating a child element text\<close>

lemma find_elem_findall: "find_elem e t = (case findall e t of [] \<Rightarrow> None | c # _ \<Rightarrow> Some c)"
proof -
  have "List.find P xs = (case filter P xs of [] \<Rightarrow> None | c # _ \<Rightarrow> Some c)" for P and xs :: "elem list"
    by (induction xs) auto
  then show ?thesis by (simp add: find_elem_def findall_def)
qed

lemma filter_set_text_first_other:
  "t' \<noteq> t \<Longrightarrow> filter (\<lambda>c. tag c = t') (set_text_first t v cs) = filter (\<lambda>c. tag c = t') cs"
  by (induction cs) auto

lemma filter_set_text_first_same:
  "filter (\<lambda>c. tag c = t) (set_text_first t v cs) =
     (case filter (\<lambda>c. tag c = t) cs of [] \<Rightarrow> []
      | c # r \<Rightarrow> Elem (tag c) (attrib c) (Some v) (children c) # r)"
  by (induction cs) auto

lemma filter_remove_first_other:
  "t' \<noteq> t \<Longrightarrow> filter (\<lambda>c. tag c = t') (remove_first t cs) = filter (\<lambda>c. tag c = t') cs"
  by (induction cs) auto

lemma filter_remove_first_same:
  "filter (\<lambda>c. tag c = t) (remove_first t cs) = tl (filter (\<lambda>c. tag c = t) cs)"
  by (induction cs) auto

lemma remove_first_absent: "filter (\<lambda>c. tag c = t) cs = [] \<Longrightarrow> remove_first t cs = cs"
  by (induction cs) (auto split: if_splits)

lemma find_SomeP: "List.find P xs = Some x \<Longrightarrow> P x"
  by (induction xs) (auto split: if_splits)

lemma remove_first_remove1:
  "List.find (\<lambda>c. tag c = t) cs = Some c \<Longrightarrow> remove_first t cs = remove1 c cs"
  by (induction cs) (auto split: if_splits dest: find_SomeP)

lemma set_text_first_absent: "filter (\<lambda>c. tag c = t) cs = [] \<Longrightarrow> set_text_first t v cs = cs"
  by (induction cs) (auto split: if_splits)

lemma elem_rebuild: "etext c = x \<Longrightarrow> Elem (tag c) (attrib c) x (children c) = c"
  by (cases c) simp

lemma set_text_first_settled:
  "filter (\<lambda>c. tag c = t) cs = c # r \<Longrightarrow> etext c = Some v \<Longrightarrow> set_text_first t v cs = cs"
  by (induction cs) (auto split: if_splits simp: elem_rebuild)

lemma set_text_first_append:
  "filter (\<lambda>c. tag c = t) cs = [] \<Longrightarrow>
     set_text_first t v (cs @ [Elem t a x k]) = cs @ [Elem t a (Some v) k]"
  by (induction cs) (auto split: if_splits)

lemma update_element_text_sel [simp]:
  "tag (update_element_text e t v) = tag e"
  "attrib (update_element_text e t v) = attrib e"
  "etext (update_element_text e t v) = etext e"
  by (simp_all add: update_element_text_def SubElement_def Let_def)

lemma children_update_empty:
  "children (update_element_text e t []) = remove_first (sc3 t) (children e)"
  by (auto simp add: update_element_text_def Let_def find_elem_None_iff findall_def remove_first_absent)

lemma children_update_nonempty:
  "v \<noteq> [] \<Longrightarrow> children (update_element_text e t v) =
     (if findall e t = [] then children e @ [Elem (sc3 t) [] (Some v) []]
      else set_text_first (sc3 t) v (children e))"
  by (auto simp add: update_element_text_def Let_def find_elem_None_iff findall_def SubElement_def
      set_text_first_append)

lemma findall_update_other:
  "t' \<noteq> t \<Longrightarrow> findall (update_element_text e t v) t' = findall e t'"
proof (cases "v = []")
  case True
  assume "t' \<noteq> t"
  then show ?thesis
    using True by (simp add: findall_def children_update_empty filter_remove_first_other)
next
  case False
  assume "t' \<noteq> t"
  then show ?thesis
    using False by (simp add: findall_def children_update_nonempty filter_set_text_first_other)
qed

lemma findall_update_empty:
  "findall (update_element_text e t []) t = tl (findall e t)"
  by (simp add: findall_def children_update_empty filter_remove_first_same)

lemma findall_update_nonempty:
  "v \<noteq> [] \<Longrightarrow> findall (update_element_text e t v) t =
     (case findall e t of [] \<Rightarrow> [Elem (sc3 t) [] (Some v) []]
      | c # r \<Rightarrow> Elem (tag c) (attrib c) (Some v) (children c) # r)"
  by (auto simp add: findall_def children_update_nonempty filter_set_text_first_same
      split: list.splits)

lemma get_element_text_findall:
  "get_element_text e t = (case findall e t of [] \<Rightarrow> None | c # _ \<Rightarrow> etext c)"
  by (simp add: get_element_text_def find_elem_findall split: list.splits)

lemma get_element_text_update:
  "v \<noteq> [] \<Longrightarrow> get_element_text (update_element_text e t v) t = Some v"
  by (simp add: get_element_text_findall findall_update_nonempty split: list.splits)

lemma update_absent_empty: "find_elem e t = None \<Longrightarrow> update_element_text e t [] = e"
  by (simp add: update_element_text_def)

lemma update_present_empty:
  assumes "find_elem e t = Some c"
  shows "update_element_text e t [] = Elem (tag e) (attrib e) (etext e) (remove1 c (children e))"
proof -
  have "remove_first (sc3 t) (children e) = remove1 c (children e)"
    using assms by (simp add: find_elem_def remove_first_remove1)
  then show ?thesis
    using assms by (simp add: update_element_text_def)
qed

lemma update_absent_nonempty:
  assumes "find_elem e t = None" and "v \<noteq> []"
  shows "update_element_text e t v =
           Elem (tag e) (attrib e) (etext e) (children e @ [Elem (sc3 t) [] (Some v) []])"
proof -
  have "findall e t = []"
    using assms(1) by (simp add: find_elem_None_iff)
  then have "children (update_element_text e t v) = children e @ [Elem (sc3 t) [] (Some v) []]"
    using assms(2) by (simp add: children_update_nonempty)
  then show ?thesis
    by (cases "update_element_text e t v") (use update_element_text_sel [of e t v] in auto)
qed

text \<open>
  C6 (amended). For every node with at most one child element under the tag of the field:
  committing the empty value removes the child if it is present, so that no child carries
  the tag afterwards; committing the empty value when the element is absent, in particular
  a second time, leaves the node as it is; and committing a non-empty value afterwards
  appends a new child with that text, which is then the text of the field.
\<close>

theorem update_element_text_presence:
  assumes "length (findall e t) \<le> 1"
  shows "(find_elem e t = Some c \<longrightarrow>
            update_element_text e t [] = Elem (tag e) (attrib e) (etext e) (remove1 c (children e)))
       \<and> (find_elem e t = None \<longrightarrow> update_element_text e t [] = e)
       \<and> find_elem (update_element_text e t []) t = None
       \<and> update_element_text (update_element_text e t []) t [] = update_element_text e t []
       \<and> (v \<noteq> [] \<longrightarrow>
            update_element_text (update_element_text e t []) t v =
              Elem (tag e) (attrib e) (etext e)
                (children (update_element_text e t []) @ [Elem (sc3 t) [] (Some v) []])
            \<and> get_element_text (update_element_text (update_element_text e t []) t v) t = Some v)"
proof -
  let ?e = "update_element_text e t []"
  have "findall ?e t = tl (findall e t)"
    by (rule findall_update_empty)
  moreover have "tl (findall e t) = []"
    using assms by (cases "findall e t") auto
  ultimately have absent: "find_elem ?e t = None"
    by (simp add: find_elem_None_iff)
  have again: "update_element_text ?e t [] = ?e"
    using absent by (rule update_absent_empty)
  have recreate: "update_element_text ?e t v =
      Elem (tag e) (attrib e) (etext e) (children ?e @ [Elem (sc3 t) [] (Some v) []])
    \<and> get_element_text (update_element_text ?e t v) t = Some v" if "v \<noteq> []"
    using update_absent_nonempty [OF absent that] get_element_text_update [OF that, of ?e t]
    by simp
  show ?thesis
    using update_present_empty [of e t c] update_absent_empty [of e t] absent again recreate
    by blast
qed

theorem update_element_text_presence_witness:
  "length (findall station_ABC ''description'') \<le> 1
   \<and> find_elem station_ABC ''description'' = Some (Elem (sc3 ''description'') [] (Some ''old'') [])
   \<and> update_element_text station_ABC ''description'' [] =
       Elem (sc3 ''station'') [(''code'', ''ABC'')] None []
   \<and> find_elem (update_element_text station_ABC ''description'' []) ''description'' = None
   \<and> update_element_text (update_element_text station_ABC ''description'' []) ''description'' [] =
       Elem (sc3 ''station'') [(''code'', ''ABC'')] None []
   \<and> update_element_text (update_element_text station_ABC ''description'' []) ''description'' ''new'' =
       Elem (sc3 ''station'') [(''code'', ''ABC'')] None
         [Elem (sc3 ''description'') [] (Some ''new'') []]
   \<and> get_element_text
       (update_element_text (update_element_text station_ABC ''description'' []) ''description'' ''new'')
       ''description'' = Some ''new''"
proof -
  let ?c = "Elem (sc3 ''description'') [] (Some ''old'') []"
  let ?u = "update_element_text station_ABC ''description'' []"
  have l: "length (findall station_ABC ''description'') \<le> 1"
    by (simp add: station_ABC_def findall_def)
  have f0: "find_elem station_ABC ''description'' = Some ?c"
    by (simp add: station_ABC_def find_elem_def)
  have n: "''new'' \<noteq> ([] :: string)" by simp
  note inst = update_element_text_presence [of station_ABC "''description''" ?c "''new''", OF l]
  from inst f0
  have a: "?u = Elem (sc3 ''station'') [(''code'', ''ABC'')] None []"
    by (simp add: station_ABC_def)
  from inst have b: "find_elem ?u ''description'' = None"
    by blast
  from inst have c: "update_element_text ?u ''description'' [] = ?u"
    by blast
  from inst n
  have d: "update_element_text ?u ''description'' ''new'' =
      Elem (tag station_ABC) (attrib station_ABC) (etext station_ABC)
        (children ?u @ [Elem (sc3 ''description'') [] (Some ''new'') []])"
    and e: "get_element_text (update_element_text ?u ''description'' ''new'') ''description'' =
      Some ''new''"
    by blast+
  have d': "update_element_text ?u ''description'' ''new'' =
      Elem (sc3 ''station'') [(''code'', ''ABC'')] None
        [Elem (sc3 ''description'') [] (Some ''new'') []]"
    unfolding d unfolding a by (simp add: station_ABC_def)
  have c': "update_element_text ?u ''description'' [] =
      Elem (sc3 ''station'') [(''code'', ''ABC'')] None []"
    unfolding c by (rule a)
  from l f0 a b c' d' e show ?thesis
    by (intro conjI)
qed

text \<open>
  On a stream with two \<^verbatim>\<open>gain\<close> children the empty value removes the first only: the
  field still reads \<^verbatim>\<open>2.0\<close>, the empty value committed again changes the node again, and a
  non-empty value then creates no element on the node that still has one but overwrites
  the text of the child that was left.
\<close>

theorem update_element_text_presence_counterexample:
  "length (findall stream_two_gains ''gain'') = 2
   \<and> update_element_text stream_two_gains ''gain'' [] =
       Elem (sc3 ''stream'') [(''code'', ''BHZ'')] None [Elem (sc3 ''gain'') [] (Some ''2.0'') []]
   \<and> get_element_text (update_element_text stream_two_gains ''gain'' []) ''gain'' = Some ''2.0''
   \<and> update_element_text (update_element_text stream_two_gains ''gain'' []) ''gain'' [] =
       Elem (sc3 ''stream'') [(''code'', ''BHZ'')] None []
   \<and> update_element_text (update_element_text stream_two_gains ''gain'' []) ''gain'' ''3.0'' =
       Elem (sc3 ''stream'') [(''code'', ''BHZ'')] None [Elem (sc3 ''gain'') [] (Some ''3.0'') []]"
  by code_simp

subsection \<open>Runs of updates and settled fields\<close>

lemma update_texts_Nil [simp]: "update_texts [] e = e"
  by (simp add: update_texts_def)

lemma update_texts_Cons [simp]:
  "update_texts ((t, v) # tvs) e = update_texts tvs (update_element_text e t v)"
  by (simp add: update_texts_def)

lemma update_texts_append: "update_texts (a @ b) e = update_texts b (update_texts a e)"
  by (simp add: update_texts_def)

lemma update_texts_sel [simp]:
  "tag (update_texts tvs e) = tag e"
  "attrib (update_texts tvs e) = attrib e"
  "etext (update_texts tvs e) = etext e"
  by (induction tvs arbitrary: e; auto)+

lemma findall_update_texts_other:
  "t \<notin> fst ` set tvs \<Longrightarrow> findall (update_texts tvs e) t = findall e t"
  by (induction tvs arbitrary: e) (auto simp add: findall_update_other)

lemma settled_update:
  "v \<noteq> [] \<or> length (findall e t) \<le> 1 \<Longrightarrow> settled (update_element_text e t v) (t, v)"
proof (cases "v = []")
  case True
  assume "v \<noteq> [] \<or> length (findall e t) \<le> 1"
  with True have "length (findall e t) \<le> 1" by simp
  then have "tl (findall e t) = []" by (cases "findall e t") auto
  with True show ?thesis by (simp add: settled_def findall_update_empty)
next
  case False
  then show ?thesis by (simp add: settled_def findall_update_nonempty split: list.splits)
qed

lemma settled_noop: "settled e (t, v) \<Longrightarrow> update_element_text e t v = e"
proof (cases "v = []")
  case True
  assume "settled e (t, v)"
  with True show ?thesis
    by (simp add: settled_def update_absent_empty find_elem_None_iff)
next
  case False
  assume s: "settled e (t, v)"
  with False obtain c r where c: "findall e t = c # r" "etext c = Some v"
    by (auto simp add: settled_def split: list.splits)
  then have "children (update_element_text e t v) = children e"
    using False by (simp add: children_update_nonempty) (simp add: findall_def set_text_first_settled)
  then show ?thesis
    by (intro elem.expand) simp
qed

lemma settled_other:
  "t' \<noteq> t \<Longrightarrow> settled (update_element_text e t' v') (t, v) = settled e (t, v)"
  by (simp add: settled_def findall_update_other)

lemma settled_update_texts_other:
  "t \<notin> fst ` set tvs \<Longrightarrow> settled (update_texts tvs e) (t, v) = settled e (t, v)"
  by (simp add: settled_def findall_update_texts_other)

lemma update_texts_noop: "list_all (settled e) tvs \<Longrightarrow> update_texts tvs e = e"
  by (induction tvs) (auto simp add: settled_noop)

lemma emptied_once_other:
  "t \<notin> fst ` set tvs \<Longrightarrow> emptied_once tvs (update_element_text e t v) = emptied_once tvs e"
proof (induction tvs)
  case Nil
  then show ?case by (simp add: emptied_once_def)
next
  case (Cons a tvs)
  then show ?case
    by (cases a) (auto simp add: emptied_once_def findall_update_other)
qed

lemma settled_update_texts:
  "distinct (map fst tvs) \<Longrightarrow> emptied_once tvs e \<Longrightarrow> list_all (settled (update_texts tvs e)) tvs"
proof (induction tvs arbitrary: e)
  case Nil
  then show ?case by simp
next
  case (Cons a tvs)
  obtain t v where a: "a = (t, v)" by (cases a)
  from Cons.prems a have notin: "t \<notin> fst ` set tvs" and d: "distinct (map fst tvs)"
    by auto
  from Cons.prems a have hd: "v \<noteq> [] \<or> length (findall e t) \<le> 1"
    and rest: "emptied_once tvs e"
    by (auto simp add: emptied_once_def)
  have "emptied_once tvs (update_element_text e t v)"
    using rest notin by (simp add: emptied_once_other)
  with d have ih: "list_all (settled (update_texts tvs (update_element_text e t v))) tvs"
    by (rule Cons.IH)
  have "settled (update_texts tvs (update_element_text e t v)) (t, v)"
    using notin hd by (simp add: settled_update_texts_other settled_update)
  with ih a show ?case by simp
qed

lemma update_texts_idem:
  "distinct (map fst tvs) \<Longrightarrow> emptied_once tvs e \<Longrightarrow>
     update_texts tvs (update_texts tvs e) = update_texts tvs e"
  by (simp add: settled_update_texts update_texts_noop)

lemma findall_set_attr [simp]: "findall (set_attr e k v) t = findall e t"
  by (simp add: findall_def set_attr_def)

lemma findall_del_attr [simp]: "findall (del_attr e k) t = findall e t"
  by (simp add: findall_def del_attr_def)

lemma emptied_once_set_attr [simp]: "emptied_once tvs (set_attr e k v) = emptied_once tvs e"
  by (simp add: emptied_once_def)

lemma emptied_once_del_attr [simp]: "emptied_once tvs (del_attr e k) = emptied_once tvs e"
  by (simp add: emptied_once_def)

subsection \<open>Committing twice\<close>

lemma str_nat_nonempty: "str_nat n \<noteq> []"
  by (subst str_nat.simps) simp

lemma str_int_nonempty: "str_int i \<noteq> []"
  by (simp add: str_int_def str_nat_nonempty)

lemma update_element_text_attrib_commute:
  "update_element_text (Elem (tag x) al (etext x) (children x)) t v =
     Elem (tag x) al (etext x) (children (update_element_text x t v))"
  by (simp add: update_element_text_def find_elem_def SubElement_def Let_def)

lemma update_texts_attrib_commute:
  "update_texts tvs (Elem (tag x) al (etext x) (children x)) =
     Elem (tag x) al (etext x) (children (update_texts tvs x))"
proof (induction tvs arbitrary: x)
  case Nil
  then show ?case by simp
next
  case (Cons a tvs)
  obtain t v where a: "a = (t, v)" by (cases a)
  have "update_texts (a # tvs) (Elem (tag x) al (etext x) (children x)) =
        update_texts tvs (Elem (tag x) al (etext x) (children (update_element_text x t v)))"
    using a by (simp add: update_element_text_attrib_commute)
  also have "\<dots> = Elem (tag x) al (etext x) (children (update_texts tvs (update_element_text x t v)))"
    using Cons.IH [of "update_element_text x t v"] by simp
  finally show ?case using a by simp
qed

lemma emptied_once_children:
  "children x = children y \<Longrightarrow> emptied_once tvs x = emptied_once tvs y"
  by (simp add: emptied_once_def findall_def)

lemma attrs_then_texts_idem:
  assumes A: "\<And>x. A x = Elem (tag x) (g (attrib x)) (etext x) (children x)"
    and g: "\<And>al. g (g al) = g al"
    and d: "distinct (map fst tvs)"
    and once: "emptied_once tvs e"
  shows "update_texts tvs (A (update_texts tvs (A e))) = update_texts tvs (A e)"
proof -
  let ?e1 = "A e"
  let ?e2 = "update_texts tvs ?e1"
  have once1: "emptied_once tvs ?e1"
    using once emptied_once_children [of ?e1 e tvs] by (simp add: A)
  have "A ?e2 = Elem (tag ?e2) (g (attrib ?e2)) (etext ?e2) (children ?e2)"
    by (rule A)
  also have "\<dots> = Elem (tag ?e2) (attrib ?e2) (etext ?e2) (children ?e2)"
    by (simp add: A g)
  also have "\<dots> = ?e2" by (rule elem.collapse)
  finally have "A ?e2 = ?e2" .
  then show ?thesis
    using d once1 by (simp add: update_texts_idem)
qed

lemma sample_rate_step_shape:
  "(\<exists>ex. \<forall>e. sample_rate_step flt txt e = Inl ex)
   \<or> (\<forall>e. sample_rate_step flt txt e = Inr e)
   \<or> (\<exists>n. \<forall>e. sample_rate_step flt txt e =
         Inr (update_texts [(''sampleRateNumerator'', str_int n), (''sampleRateDenominator'', ''1'')] e))"
proof (cases "flt txt")
  case None
  then show ?thesis by (simp add: sample_rate_step_def py_float_def)
next
  case (Some x)
  then show ?thesis
    by (cases x) (auto simp add: sample_rate_step_def py_float_def)
qed

lemma commit_stream_shape:
  "\<exists>tvs ex. distinct (map fst tvs)
     \<and> (\<forall>e. emptied_once (stream_texts_before f @ stream_texts_after f) e \<longrightarrow> emptied_once tvs e)
     \<and> (\<forall>e. commit_stream flt f e = (update_texts tvs (set_attr e ''code'' (stream_code f)), ex))"
proof -
  let ?B = "stream_texts_before f" and ?A = "stream_texts_after f"
  consider (raises) ex where "\<forall>e. sample_rate_step flt (stream_sampleRate f) e = Inl ex"
    | (passes) "\<forall>e. sample_rate_step flt (stream_sampleRate f) e = Inr e"
    | (writes) n where "\<forall>e. sample_rate_step flt (stream_sampleRate f) e =
         Inr (update_texts [(''sampleRateNumerator'', str_int n), (''sampleRateDenominator'', ''1'')] e)"
    using sample_rate_step_shape [of flt "stream_sampleRate f"] by blast
  then show ?thesis
  proof cases
    case raises
    have "distinct (map fst ?B)" by (simp add: stream_texts_before_def)
    moreover have "\<forall>e. emptied_once (?B @ ?A) e \<longrightarrow> emptied_once ?B e"
      by (simp add: emptied_once_def)
    moreover have "\<forall>e. commit_stream flt f e = (update_texts ?B (set_attr e ''code'' (stream_code f)), Some ex)"
      using raises by (simp add: commit_stream_def)
    ultimately show ?thesis by blast
  next
    case passes
    have "distinct (map fst (?B @ ?A))"
      by (simp add: stream_texts_before_def stream_texts_after_def)
    moreover have "\<forall>e. commit_stream flt f e = (update_texts (?B @ ?A) (set_attr e ''code'' (stream_code f)), None)"
      using passes by (simp add: commit_stream_def update_texts_append)
    ultimately show ?thesis by blast
  next
    case writes
    let ?S = "[(''sampleRateNumerator'', str_int n), (''sampleRateDenominator'', ''1'')]"
    have "distinct (map fst (?B @ ?S @ ?A))"
      by (simp add: stream_texts_before_def stream_texts_after_def)
    moreover have "\<forall>e. emptied_once (?B @ ?A) e \<longrightarrow> emptied_once (?B @ ?S @ ?A) e"
      by (simp add: emptied_once_def str_int_nonempty)
    moreover have "\<forall>e. commit_stream flt f e = (update_texts (?B @ ?S @ ?A) (set_attr e ''code'' (stream_code f)), None)"
      using writes by (simp add: commit_stream_def update_texts_append)
    ultimately show ?thesis by blast
  qed
qed

lemma commit_stream_idem:
  assumes "emptied_once (stream_texts_before f @ stream_texts_after f) e"
  shows "commit_stream flt f (fst (commit_stream flt f e)) = commit_stream flt f e"
proof -
  obtain tvs ex where d: "distinct (map fst tvs)"
    and o: "emptied_once tvs e"
    and c: "\<And>x. commit_stream flt f x = (update_texts tvs (set_attr x ''code'' (stream_code f)), ex)"
    using commit_stream_shape [of f flt] assms by blast
  have "update_texts tvs (set_attr (update_texts tvs (set_attr e ''code'' (stream_code f))) ''code'' (stream_code f))
        = update_texts tvs (set_attr e ''code'' (stream_code f))"
    by (rule attrs_then_texts_idem [where g = "AList.update ''code'' (stream_code f)"])
       (simp_all add: set_attr_def d o)
  then show ?thesis by (simp add: c)
qed

lemma commit_equipment_idem:
  assumes "emptied_once (equipment_texts f) e"
  shows "commit_equipment f (commit_equipment f e) = commit_equipment f e"
proof -
  have d: "distinct (map fst (equipment_texts f))"
    by (simp add: equipment_texts_def)
  show ?thesis
    unfolding commit_equipment_def
    by (rule attrs_then_texts_idem [where g = "AList.update ''name'' (equipment_name f)"])
       (simp_all add: set_attr_def assms d)
qed

lemma station_attrs_idem: "station_attrs f (station_attrs f al) = station_attrs f al"
  by (auto simp add: station_attrs_def Let_def AList.update_conv' AList.delete_conv'
      AList.update_triv AList.delete_idem)

lemma commit_station_attrs:
  "commit_station f e =
     update_texts (station_texts f) (Elem (tag e) (station_attrs f (attrib e)) (etext e) (children e))"
  by (simp add: commit_station_def station_attrs_def set_attr_def del_attr_def Let_def)

lemma commit_station_idem:
  assumes "emptied_once (station_texts f) e"
  shows "commit_station f (commit_station f e) = commit_station f e"
proof -
  have d: "distinct (map fst (station_texts f))"
    by (simp add: station_texts_def)
  show ?thesis
    unfolding commit_station_attrs
    by (rule attrs_then_texts_idem [where g = "station_attrs f"])
       (simp_all add: station_attrs_idem assms d)
qed

lemma node_at_modify_at:
  "node_at p r = Some e \<Longrightarrow> node_at p (modify_at p f r) = Some (f e)"
  by (induction p arbitrary: r) (auto split: if_splits)

lemma modify_at_twice:
  "node_at p r = Some e \<Longrightarrow> f (g e) = g e \<Longrightarrow> modify_at p f (modify_at p g r) = modify_at p g r"
  by (induction p arbitrary: r) (auto split: if_splits)

lemma update_stream_twice:
  assumes "current_element st = Some p" and "root st = Some r" and "node_at p r = Some e"
    and "emptied_once (stream_texts_before f @ stream_texts_after f) e"
  shows "root (update_stream flt f (update_stream flt f st)) = root (update_stream flt f st)"
proof -
  let ?F = "\<lambda>x. fst (commit_stream flt f x)"
  have idem: "commit_stream flt f (?F e) = commit_stream flt f e"
    using assms(4) by (rule commit_stream_idem)
  have n: "node_at p (modify_at p ?F r) = Some (?F e)"
    using assms(3) by (rule node_at_modify_at)
  have m: "modify_at p ?F (modify_at p ?F r) = modify_at p ?F r"
    using assms(3) by (rule modify_at_twice) (simp add: idem)
  show ?thesis
    using assms(1,2,3) n m idem
    by (cases "snd (commit_stream flt f e)") (simp_all add: update_stream_def)
qed

lemma update_station_twice:
  assumes "current_element st = Some p" and "root st = Some r" and "node_at p r = Some e"
    and "emptied_once (station_texts f) e"
  shows "root (update_station f (update_station f st)) = root (update_station f st)"
proof -
  have "modify_at p (commit_station f) (modify_at p (commit_station f) r) =
        modify_at p (commit_station f) r"
    using assms(3) by (rule modify_at_twice) (simp add: commit_station_idem assms(4))
  then show ?thesis
    using assms(1,2) by (simp add: update_station_def)
qed

lemma update_equipment_twice:
  assumes "current_element st = Some p" and "root st = Some r" and "node_at p r = Some e"
    and "emptied_once (equipment_texts f) e"
  shows "root (update_sensor f (update_sensor f st)) = root (update_sensor f st)"
    and "root (update_datalogger f (update_datalogger f st)) = root (update_datalogger f st)"
proof -
  have "modify_at p (commit_equipment f) (modify_at p (commit_equipment f) r) =
        modify_at p (commit_equipment f) r"
    using assms(3) by (rule modify_at_twice) (simp add: commit_equipment_idem assms(4))
  then show "root (update_sensor f (update_sensor f st)) = root (update_sensor f st)"
    and "root (update_datalogger f (update_datalogger f st)) = root (update_datalogger f st)"
    using assms(1,2) by (simp_all add: update_sensor_def update_datalogger_def)
qed

text \<open>
  C9 (amended). Committing the same field values twice in succession leaves the document
  tree as the first commit left it, for every selected node that has at most one child
  element under the tag of each field committed as empty. (A second commit of an empty
  value removes a second child with the same tag, see the counterexample.)
\<close>

theorem commits_idempotent:
  assumes "current_element st = Some p" and "root st = Some r" and "node_at p r = Some e"
  shows "(emptied_once (stream_texts_before fs @ stream_texts_after fs) e \<longrightarrow>
            root (update_stream flt fs (update_stream flt fs st)) = root (update_stream flt fs st))
       \<and> (emptied_once (station_texts ft) e \<longrightarrow>
            root (update_station ft (update_station ft st)) = root (update_station ft st))
       \<and> (emptied_once (equipment_texts fe) e \<longrightarrow>
            root (update_sensor fe (update_sensor fe st)) = root (update_sensor fe st)
          \<and> root (update_datalogger fe (update_datalogger fe st)) = root (update_datalogger fe st))"
  using update_stream_twice [OF assms] update_station_twice [OF assms]
    update_equipment_twice [OF assms] by blast

lemma update_stream_root:
  "current_element st = Some p \<Longrightarrow> root st = Some r \<Longrightarrow> node_at p r = Some e \<Longrightarrow>
     root (update_stream flt f st) = Some (modify_at p (\<lambda>x. fst (commit_stream flt f x)) r)
     \<and> current_element (update_stream flt f st) = Some p"
  by (cases "snd (commit_stream flt f e)") (simp_all add: update_stream_def)

lemma update_stream_current [simp]:
  "current_element (update_stream flt f st) = current_element st"
  by (simp add: update_stream_def split: option.splits)

lemma modify_at_document_with:
  "modify_at [0, 0, 0, 0, 0] f (document_with s) = document_with (f s)"
  by (simp add: document_with_def)

lemma node_at_document_with: "node_at [0, 0, 0, 0, 0] (document_with s) = Some s"
  by (simp add: document_with_def)

lemma update_stream_session_on:
  "update_stream flt f (session_on s) =
     (session_on s)\<lparr>root := Some (document_with (fst (commit_stream flt f s))),
        unsaved_changes := (snd (commit_stream flt f s) = None),
        notices := [case snd (commit_stream flt f s) of
                      None \<Rightarrow> Status ''Stream updated successfully''
                    | Some ex \<Rightarrow> Critical ''Failed to update stream'' ex]\<rparr>"
  by (cases "snd (commit_stream flt f s)")
     (simp_all add: update_stream_def session_on_def node_at_document_with modify_at_document_with
        del: node_at.simps modify_at.simps)

text \<open>
  On a stream with two \<^verbatim>\<open>gain\<close> children, committing an empty gain removes the first one,
  and committing it again removes the second: the two document states differ.
\<close>

theorem commits_idempotent_counterexample:
  "root (update_stream float_examples blank_stream_form (session_on stream_two_gains)) =
     Some (document_with (Elem (sc3 ''stream'') [(''code'', ''BHZ'')] None
       [Elem (sc3 ''gain'') [] (Some ''2.0'') []]))
   \<and> root (update_stream float_examples blank_stream_form
        (update_stream float_examples blank_stream_form (session_on stream_two_gains))) =
     Some (document_with (Elem (sc3 ''stream'') [(''code'', ''BHZ'')] None []))"
proof -
  let ?s1 = "Elem (sc3 ''stream'') [(''code'', ''BHZ'')] None [Elem (sc3 ''gain'') [] (Some ''2.0'') []]"
  have c1: "commit_stream float_examples blank_stream_form stream_two_gains = (?s1, None)"
    by code_simp
  have c2: "commit_stream float_examples blank_stream_form ?s1 =
      (Elem (sc3 ''stream'') [(''code'', ''BHZ'')] None [], None)"
    by code_simp
  have r1: "root (update_stream float_examples blank_stream_form (session_on stream_two_gains)) =
      Some (document_with ?s1)"
    by (simp add: update_stream_session_on c1)
  have st1: "current_element (update_stream float_examples blank_stream_form (session_on stream_two_gains)) = Some [0, 0, 0, 0, 0]"
    by (simp add: session_on_def)
  have r2: "root (update_stream float_examples blank_stream_form
        (update_stream float_examples blank_stream_form (session_on stream_two_gains))) =
     Some (document_with (Elem (sc3 ''stream'') [(''code'', ''BHZ'')] None []))"
    using update_stream_root [OF st1 r1 node_at_document_with, of float_examples blank_stream_form]
    by (simp add: modify_at_document_with c2 del: modify_at.simps)
  from r1 r2 show ?thesis by simp
qed


theorem commits_idempotent_witness:
  "root (update_stream float_examples blank_stream_form
      (update_stream float_examples blank_stream_form (session_on stream_BHZ))) =
     root (update_stream float_examples blank_stream_form (session_on stream_BHZ))
   \<and> root (update_station blank_station_form (update_station blank_station_form (session_on stream_BHZ))) =
     root (update_station blank_station_form (session_on stream_BHZ))
   \<and> root (update_sensor blank_equipment_form (update_sensor blank_equipment_form (session_on stream_BHZ))) =
     root (update_sensor blank_equipment_form (session_on stream_BHZ))
   \<and> root (update_datalogger blank_equipment_form (update_datalogger blank_equipment_form (session_on stream_BHZ))) =
     root (update_datalogger blank_equipment_form (session_on stream_BHZ))
   \<and> root (update_stream float_examples edited_stream_form (session_on stream_with_gain)) =
     Some (document_with (Elem (sc3 ''stream'') [(''code'', ''HHZ'')] None
       [Elem (sc3 ''sampleRateNumerator'') [] (Some ''0'') [],
        Elem (sc3 ''sampleRateDenominator'') [] (Some ''1'') [],
        Elem (sc3 ''depth'') [] (Some ''10'') [],
        Elem (sc3 ''flags'') [] (Some ''G'') []]))
   \<and> root (update_stream float_examples edited_stream_form
        (update_stream float_examples edited_stream_form (session_on stream_with_gain))) =
       root (update_stream float_examples edited_stream_form (session_on stream_with_gain))"
proof -
  have a: "current_element (session_on stream_BHZ) = Some [0, 0, 0, 0, 0]"
    and b: "root (session_on stream_BHZ) = Some (document_with stream_BHZ)"
    by (simp_all add: session_on_def)
  have c: "node_at [0, 0, 0, 0, 0] (document_with stream_BHZ) = Some stream_BHZ"
    by (rule node_at_document_with)
  have h1: "emptied_once (stream_texts_before blank_stream_form @ stream_texts_after blank_stream_form) stream_BHZ"
    by code_simp
  have h2: "emptied_once (station_texts blank_station_form) stream_BHZ"
    by code_simp
  have h3: "emptied_once (equipment_texts blank_equipment_form) stream_BHZ"
    by code_simp
  from commits_idempotent [OF a b c, of blank_stream_form float_examples blank_station_form
      blank_equipment_form]
  have "(emptied_once (stream_texts_before blank_stream_form @ stream_texts_after blank_stream_form) stream_BHZ \<longrightarrow>
            root (update_stream float_examples blank_stream_form (update_stream float_examples blank_stream_form (session_on stream_BHZ))) = root (update_stream float_examples blank_stream_form (session_on stream_BHZ)))
       \<and> (emptied_once (station_texts blank_station_form) stream_BHZ \<longrightarrow>
            root (update_station blank_station_form (update_station blank_station_form (session_on stream_BHZ))) = root (update_station blank_station_form (session_on stream_BHZ)))
       \<and> (emptied_once (equipment_texts blank_equipment_form) stream_BHZ \<longrightarrow>
            root (update_sensor blank_equipment_form (update_sensor blank_equipment_form (session_on stream_BHZ))) = root (update_sensor blank_equipment_form (session_on stream_BHZ))
          \<and> root (update_datalogger blank_equipment_form (update_datalogger blank_equipment_form (session_on stream_BHZ))) = root (update_datalogger blank_equipment_form (session_on stream_BHZ)))" .
  with h1 h2 h3 have blank:
    "root (update_stream float_examples blank_stream_form
        (update_stream float_examples blank_stream_form (session_on stream_BHZ))) =
       root (update_stream float_examples blank_stream_form (session_on stream_BHZ))
     \<and> root (update_station blank_station_form (update_station blank_station_form (session_on stream_BHZ))) =
       root (update_station blank_station_form (session_on stream_BHZ))
     \<and> root (update_sensor blank_equipment_form (update_sensor blank_equipment_form (session_on stream_BHZ))) =
       root (update_sensor blank_equipment_form (session_on stream_BHZ))
     \<and> root (update_datalogger blank_equipment_form (update_datalogger blank_equipment_form (session_on stream_BHZ))) =
       root (update_datalogger blank_equipment_form (session_on stream_BHZ))"
    by blast
  have a': "current_element (session_on stream_with_gain) = Some [0, 0, 0, 0, 0]"
    and b': "root (session_on stream_with_gain) = Some (document_with stream_with_gain)"
    by (simp_all add: session_on_def)
  have c': "node_at [0, 0, 0, 0, 0] (document_with stream_with_gain) = Some stream_with_gain"
    by (rule node_at_document_with)
  have h: "emptied_once (stream_texts_before edited_stream_form @ stream_texts_after edited_stream_form)
      stream_with_gain"
    by code_simp
  have c1: "commit_stream float_examples edited_stream_form stream_with_gain =
      (Elem (sc3 ''stream'') [(''code'', ''HHZ'')] None
       [Elem (sc3 ''sampleRateNumerator'') [] (Some ''0'') [],
        Elem (sc3 ''sampleRateDenominator'') [] (Some ''1'') [],
        Elem (sc3 ''depth'') [] (Some ''10'') [],
        Elem (sc3 ''flags'') [] (Some ''G'') []], None)"
    by code_simp
  have r1: "root (update_stream float_examples edited_stream_form (session_on stream_with_gain)) =
     Some (document_with (Elem (sc3 ''stream'') [(''code'', ''HHZ'')] None
       [Elem (sc3 ''sampleRateNumerator'') [] (Some ''0'') [],
        Elem (sc3 ''sampleRateDenominator'') [] (Some ''1'') [],
        Elem (sc3 ''depth'') [] (Some ''10'') [],
        Elem (sc3 ''flags'') [] (Some ''G'') []]))"
    by (simp add: update_stream_session_on c1)
  from commits_idempotent [OF a' b' c', of edited_stream_form float_examples blank_station_form
      blank_equipment_form] h
  have r2: "root (update_stream float_examples edited_stream_form
        (update_stream float_examples edited_stream_form (session_on stream_with_gain))) =
       root (update_stream float_examples edited_stream_form (session_on stream_with_gain))"
    by blast
  from blank r1 r2 show ?thesis by blast
qed

subsection \<open>Codes and the sample rate in a stream commit\<close>

lemma get_element_text_update_texts_other:
  "t \<notin> fst ` set tvs \<Longrightarrow> get_element_text (update_texts tvs e) t = get_element_text e t"
  by (simp add: get_element_text_findall findall_update_texts_other)

lemma get_set_attr: "get (set_attr e k v) k' = (if k' = k then Some v else get e k')"
  by (simp add: get_def set_attr_def AList.update_conv')

lemma get_update_texts [simp]: "get (update_texts tvs e) k = get e k"
  by (simp add: get_def)

lemma commit_stream_code:
  "get (fst (commit_stream flt f e)) ''code'' = Some (stream_code f)"
proof -
  obtain tvs ex where "commit_stream flt f e = (update_texts tvs (set_attr e ''code'' (stream_code f)), ex)"
    using commit_stream_shape [of f flt] by blast
  then show ?thesis by (simp add: get_set_attr)
qed

lemma commit_station_code:
  "get (commit_station f e) ''code'' = (if station_code f = [] then get e ''code'' else Some (station_code f))"
  by (simp add: commit_station_attrs get_def station_attrs_def AList.update_conv' AList.delete_conv'
      Let_def)

text \<open>
  C5. \<^verbatim>\<open>update_station\<close> keeps the station code on an empty input (lemma
  \<open>commit_station_code\<close>), but \<^verbatim>\<open>update_stream\<close> sets the stream code to whatever the
  widget holds (lemma \<open>commit_stream_code\<close>): committing an empty code on the stream
  \<^verbatim>\<open>BHZ\<close> leaves it with the code attribute blank.
\<close>

theorem update_stream_blanks_code:
  "node_at [0, 0, 0, 0, 0] (document_with stream_BHZ) = Some stream_BHZ
   \<and> get stream_BHZ ''code'' = Some ''BHZ''
   \<and> root (update_stream float_examples (blank_stream_form\<lparr>stream_code := ''''\<rparr>)
        (session_on stream_BHZ)) =
       Some (document_with (Elem (sc3 ''stream'') [(''code'', '''')] None
         [Elem (sc3 ''sampleRateNumerator'') [] (Some ''100'') [],
          Elem (sc3 ''sampleRateDenominator'') [] (Some ''1'') []]))"
proof -
  have c: "commit_stream float_examples (blank_stream_form\<lparr>stream_code := ''''\<rparr>) stream_BHZ =
      (Elem (sc3 ''stream'') [(''code'', '''')] None
         [Elem (sc3 ''sampleRateNumerator'') [] (Some ''100'') [],
          Elem (sc3 ''sampleRateDenominator'') [] (Some ''1'') []], None)"
    by code_simp
  have g: "get stream_BHZ ''code'' = Some ''BHZ''"
    by code_simp
  show ?thesis
    by (simp add: update_stream_session_on c g node_at_document_with del: node_at.simps)
qed

lemma sample_rate_step_pass:
  "flt txt = None \<Longrightarrow> sample_rate_step flt txt e = Inr e"
  by (simp add: sample_rate_step_def py_float_def)

lemma sample_rate_step_finite:
  "flt txt = Some (Finite r) \<Longrightarrow>
     sample_rate_step flt txt e =
       Inr (update_texts
              [(''sampleRateNumerator'', str_int (if r < 0 then - \<lfloor>- r\<rfloor> else \<lfloor>r\<rfloor>)),
               (''sampleRateDenominator'', ''1'')] e)"
  by (simp add: sample_rate_step_def py_float_def)

text \<open>The text \<^verbatim>\<open>inf\<close> parses as a float too, and \<^verbatim>\<open>int\<close> of it raises \<^verbatim>\<open>OverflowError\<close>, which
  the inner handler does not name: the commit stops there, the fields after the sample rate
  are not written and the session is not marked as changed.\<close>

lemma sample_rate_inf_aborts:
  "float_examples ''inf'' = Some PosInf
   \<and> commit_stream float_examples
        (blank_stream_form\<lparr>stream_sampleRate := ''inf'', stream_flags := ''G''\<rparr>) stream_bare =
       (stream_bare, Some OverflowError)
   \<and> unsaved_changes (update_stream float_examples
        (blank_stream_form\<lparr>stream_sampleRate := ''inf'', stream_flags := ''G''\<rparr>)
        (session_on stream_bare)) = False"
proof -
  have c: "commit_stream float_examples
        (blank_stream_form\<lparr>stream_sampleRate := ''inf'', stream_flags := ''G''\<rparr>) stream_bare =
       (stream_bare, Some OverflowError)"
    by code_simp
  have f: "float_examples ''inf'' = Some PosInf"
    by code_simp
  show ?thesis
    by (simp add: update_stream_session_on c f)
qed

text \<open>
  C10 (amended). In a stream commit, when the sample rate text does not parse as a float
  (as the empty string does not), the \<^verbatim>\<open>sampleRateNumerator\<close> and
  \<^verbatim>\<open>sampleRateDenominator\<close> children are left as they were and no error is reported; when
  it parses as a finite float \<open>r\<close>, the numerator is written as the decimal string of
  \<open>r\<close> truncated towards zero and the denominator as \<^verbatim>\<open>1\<close>, so that \<^verbatim>\<open>0.5\<close> is stored as
  numerator \<^verbatim>\<open>0\<close>.
\<close>

theorem sample_rate_commit:
  "(flt (stream_sampleRate f) = None \<longrightarrow>
      findall (fst (commit_stream flt f e)) ''sampleRateNumerator'' = findall e ''sampleRateNumerator''
    \<and> findall (fst (commit_stream flt f e)) ''sampleRateDenominator'' = findall e ''sampleRateDenominator''
    \<and> snd (commit_stream flt f e) = None)
   \<and> (flt (stream_sampleRate f) = Some (Finite r) \<longrightarrow>
      get_element_text (fst (commit_stream flt f e)) ''sampleRateNumerator'' =
        Some (str_int (if r < 0 then - \<lfloor>- r\<rfloor> else \<lfloor>r\<rfloor>))
    \<and> get_element_text (fst (commit_stream flt f e)) ''sampleRateDenominator'' = Some ''1''
    \<and> snd (commit_stream flt f e) = None)"
proof (intro conjI impI)
  assume n: "flt (stream_sampleRate f) = None"
  show "findall (fst (commit_stream flt f e)) ''sampleRateNumerator'' = findall e ''sampleRateNumerator''"
    by (simp add: commit_stream_def sample_rate_step_pass [of flt, OF n] findall_update_other
        stream_texts_before_def stream_texts_after_def)
  show "findall (fst (commit_stream flt f e)) ''sampleRateDenominator'' = findall e ''sampleRateDenominator''"
    by (simp add: commit_stream_def sample_rate_step_pass [of flt, OF n] findall_update_other
        stream_texts_before_def stream_texts_after_def)
  show "snd (commit_stream flt f e) = None"
    by (simp add: commit_stream_def sample_rate_step_pass [of flt, OF n])
next
  assume r: "flt (stream_sampleRate f) = Some (Finite r)"
  let ?n = "str_int (if r < 0 then - \<lfloor>- r\<rfloor> else \<lfloor>r\<rfloor>)"
  let ?e1 = "update_texts (stream_texts_before f) (set_attr e ''code'' (stream_code f))"
  let ?e2 = "update_element_text ?e1 ''sampleRateNumerator'' ?n"
  let ?e3 = "update_element_text ?e2 ''sampleRateDenominator'' ''1''"
  have c: "commit_stream flt f e = (update_texts (stream_texts_after f) ?e3, None)"
    by (simp add: commit_stream_def sample_rate_step_finite [of flt, OF r])
  have "get_element_text ?e3 ''sampleRateNumerator'' = get_element_text ?e2 ''sampleRateNumerator''"
    by (simp add: get_element_text_findall findall_update_other)
  also have "\<dots> = Some ?n"
    by (rule get_element_text_update) (rule str_int_nonempty)
  finally show "get_element_text (fst (commit_stream flt f e)) ''sampleRateNumerator'' = Some ?n"
    by (simp add: c get_element_text_findall findall_update_other stream_texts_after_def)
  have "get_element_text ?e3 ''sampleRateDenominator'' = Some ''1''"
    by (rule get_element_text_update) simp
  then show "get_element_text (fst (commit_stream flt f e)) ''sampleRateDenominator'' = Some ''1''"
    by (simp add: c get_element_text_findall findall_update_other stream_texts_after_def)
  show "snd (commit_stream flt f e) = None"
    by (simp add: c)
qed

theorem sample_rate_commit_witness:
  "float_examples '''' = None
   \<and> findall (fst (commit_stream float_examples blank_stream_form stream_BHZ)) ''sampleRateNumerator'' =
       [Elem (sc3 ''sampleRateNumerator'') [] (Some ''100'') []]
   \<and> findall (fst (commit_stream float_examples blank_stream_form stream_BHZ)) ''sampleRateDenominator'' =
       [Elem (sc3 ''sampleRateDenominator'') [] (Some ''1'') []]
   \<and> float_examples ''0.5'' = Some (Finite (1 / 2))
   \<and> get_element_text
        (fst (commit_stream float_examples (blank_stream_form\<lparr>stream_sampleRate := ''0.5''\<rparr>) stream_bare))
        ''sampleRateNumerator'' = Some ''0''
   \<and> get_element_text
        (fst (commit_stream float_examples (blank_stream_form\<lparr>stream_sampleRate := ''0.5''\<rparr>) stream_bare))
        ''sampleRateDenominator'' = Some ''1''"
proof -
  have a: "float_examples (stream_sampleRate blank_stream_form) = None"
    by code_simp
  have a': "float_examples '''' = None"
    by code_simp
  have b: "float_examples (stream_sampleRate (blank_stream_form\<lparr>stream_sampleRate := ''0.5''\<rparr>)) =
      Some (Finite (1 / 2))"
    by (simp add: float_examples_def)
  have b': "float_examples ''0.5'' = Some (Finite (1 / 2))"
    by (simp add: float_examples_def)
  have n: "findall stream_BHZ ''sampleRateNumerator'' = [Elem (sc3 ''sampleRateNumerator'') [] (Some ''100'') []]"
    and d: "findall stream_BHZ ''sampleRateDenominator'' = [Elem (sc3 ''sampleRateDenominator'') [] (Some ''1'') []]"
    by (simp_all add: findall_def stream_BHZ_def)
  have z: "str_int (if (1 / 2 :: rat) < 0 then - \<lfloor>- (1 / 2 :: rat)\<rfloor> else \<lfloor>1 / 2 :: rat\<rfloor>) = ''0''"
    by (simp add: str_int_def str_nat.simps [of 0])
  from sample_rate_commit [of float_examples blank_stream_form stream_BHZ "1 / 2"] a n d
  have p1: "findall (fst (commit_stream float_examples blank_stream_form stream_BHZ)) ''sampleRateNumerator'' =
       [Elem (sc3 ''sampleRateNumerator'') [] (Some ''100'') []]
     \<and> findall (fst (commit_stream float_examples blank_stream_form stream_BHZ)) ''sampleRateDenominator'' =
       [Elem (sc3 ''sampleRateDenominator'') [] (Some ''1'') []]"
    by simp
  from sample_rate_commit [of float_examples "blank_stream_form\<lparr>stream_sampleRate := ''0.5''\<rparr>"
      stream_bare "1 / 2"] b z
  have p2: "get_element_text
        (fst (commit_stream float_examples (blank_stream_form\<lparr>stream_sampleRate := ''0.5''\<rparr>) stream_bare))
        ''sampleRateNumerator'' = Some ''0''
   \<and> get_element_text
        (fst (commit_stream float_examples (blank_stream_form\<lparr>stream_sampleRate := ''0.5''\<rparr>) stream_bare))
        ''sampleRateDenominator'' = Some ''1''"
    by simp
  from a' b' p1 p2 show ?thesis by blast
qed

text \<open>
  The text \<^verbatim>\<open>nan\<close> parses as a float, yet \<^verbatim>\<open>int\<close> of it raises the \<^verbatim>\<open>ValueError\<close> that the
  inner handler passes over: nothing is written.
\<close>

theorem sample_rate_commit_counterexample:
  "float_examples ''nan'' = Some NaN
   \<and> commit_stream float_examples (blank_stream_form\<lparr>stream_sampleRate := ''nan''\<rparr>) stream_bare =
       (stream_bare, None)
   \<and> get_element_text stream_bare ''sampleRateNumerator'' = None
   \<and> get_element_text stream_bare ''sampleRateDenominator'' = None"
  by code_simp

subsection \<open>Reading the sample rate\<close>

lemma sample_rate_text_cases:
  "sample_rate_text flt s =
     (case get_element_text_default s ''sampleRateNumerator'' ''0'' of
        None \<Rightarrow> Inl TypeError
      | Some n \<Rightarrow>
          (case flt n of
             None \<Rightarrow> Inr Blank
           | Some x \<Rightarrow>
               (case get_element_text_default s ''sampleRateDenominator'' ''1'' of
                  None \<Rightarrow> Inl TypeError
                | Some d \<Rightarrow>
                    (case flt d of
                       None \<Rightarrow> Inr Blank
                     | Some y \<Rightarrow> if y = Finite 0 then Inr Blank else Inr (Rate (float_quot x y))))))"
  by (simp add: sample_rate_text_def py_float_def py_truediv_def Let_def split: option.splits)

lemma sample_rate_text_raises_iff:
  "(\<exists>ex. sample_rate_text flt s = Inl ex) \<longleftrightarrow>
     get_element_text_default s ''sampleRateNumerator'' ''0'' = None
     \<or> (\<exists>n x. get_element_text_default s ''sampleRateNumerator'' ''0'' = Some n \<and> flt n = Some x
          \<and> get_element_text_default s ''sampleRateDenominator'' ''1'' = None)"
  by (auto simp add: sample_rate_text_cases split: option.splits)

lemma sample_rate_text_exception: "sample_rate_text flt s = Inl ex \<Longrightarrow> ex = TypeError"
  by (auto simp add: sample_rate_text_cases split: option.splits if_splits)

lemma populate_stream_fields_rate:
  "populate_stream_fields flt s = Inr shown \<Longrightarrow> sample_rate_text flt s = Inr (shown_sampleRate shown)"
  by (auto simp add: populate_stream_fields_def split: sum.splits)

lemma populate_stream_fields_examples:
  "map_sum id shown_sampleRate (populate_stream_fields float_examples stream_BHZ) = Inr (Rate (Finite 100))"
  "map_sum id shown_sampleRate (populate_stream_fields float_examples stream_zero_denominator) = Inr Blank"
  "map_sum id shown_sampleRate (populate_stream_fields float_examples stream_abc_numerator) = Inr Blank"
  by code_simp+

text \<open>
  C8. The displayed rate is the quotient for 100 over 1 and blank for a zero denominator
  or a text that is not a number (lemma \<open>populate_stream_fields_examples\<close>), but a
  \<^verbatim>\<open>sampleRateNumerator\<close> or \<^verbatim>\<open>sampleRateDenominator\<close> element without text reads as
  \<^verbatim>\<open>None\<close>, \<^verbatim>\<open>float(None)\<close> raises \<^verbatim>\<open>TypeError\<close>, and the handler does not name it: the
  exception leaves \<^verbatim>\<open>populate_stream_fields\<close>.
\<close>

theorem populate_stream_fields_raises:
  "get_element_text_default stream_empty_denominator ''sampleRateDenominator'' ''1'' = None
   \<and> populate_stream_fields float_examples stream_empty_denominator = Inl TypeError"
  by code_simp

subsection \<open>Saving\<close>

lemma path_suffix_xml_bak: "path_suffix (xs @ ''.xml.bak'') = ''.bak''"
  by (simp add: path_suffix_def path_name_def Let_def)

lemma with_suffix_differs:
  assumes "with_suffix cur ''.xml.bak'' = Inr b"
  shows "b \<noteq> cur"
proof
  assume eq: "b = cur"
  let ?k = "length (path_suffix cur)"
  from assms have b: "b = take (length cur - ?k) cur @ ''.xml.bak''"
    by (simp add: with_suffix_def split: if_splits)
  with eq have c: "cur = take (length cur - ?k) cur @ ''.xml.bak''" by simp
  then have "path_suffix cur = ''.bak''"
    using path_suffix_xml_bak [of "take (length cur - ?k) cur"] by simp
  then have k: "?k = 4" by simp
  from c have "length cur = length (take (length cur - ?k) cur @ ''.xml.bak'')" by simp
  with k show False by simp
qed

lemma save_xml_failure_result:
  assumes cur: "current_file st = Some cur" and name: "path_name cur \<noteq> []"
    and r: "root st = Some r" and orig: "fs cur = Some orig"
    and b: "with_suffix cur ''.xml.bak'' = Inr b"
  shows "save_xml Posix (Write_fails left) st fs =
           ((st\<lparr>notices := notices st @ [Critical ''Failed to save XML'' OSError]\<rparr>,
             (fs(b := None))(cur \<mapsto> orig)), None)"
proof -
  have ne: "b \<noteq> cur" using b by (rule with_suffix_differs)
  have nonempty: "cur \<noteq> []" using name by (auto simp add: path_name_def)
  have rn: "rename Posix cur b fs = Inr ((fs(cur := None))(b \<mapsto> orig))"
    using orig ne by (simp add: rename_def)
  show ?thesis
  proof (cases left)
    case None
    have "(((fs(cur := None))(b \<mapsto> orig))(b := None))(cur \<mapsto> orig) = (fs(b := None))(cur \<mapsto> orig)"
      using ne by (auto simp add: fun_eq_iff)
    then show ?thesis
      using cur r b rn ne nonempty None
      by (simp add: save_xml_def tree_write_def save_failed_def rename_def Let_def)
  next
    case (Some l)
    have "((((fs(cur := None))(b \<mapsto> orig))(cur \<mapsto> l))(b := None))(cur \<mapsto> orig) = (fs(b := None))(cur \<mapsto> orig)"
      using ne by (auto simp add: fun_eq_iff)
    then show ?thesis
      using cur r b rn ne nonempty Some
      by (simp add: save_xml_def tree_write_def save_failed_def rename_def Let_def)
  qed
qed

text \<open>
  Where \<^verbatim>\<open>Path.rename\<close> replaces an existing target (POSIX), a failed write during a save
  of an existing file, whatever it left behind, ends with \<^verbatim>\<open>save_xml\<close> returning normally,
  the original file back under its own name and \<^verbatim>\<open>unsaved_changes\<close> as it was.
\<close>

lemma save_xml_write_failure_posix:
  assumes "current_file st = Some cur" and "path_name cur \<noteq> []"
    and "root st = Some r" and "fs cur = Some orig"
  shows "snd (save_xml Posix (Write_fails left) st fs) = None
       \<and> snd (fst (save_xml Posix (Write_fails left) st fs)) cur = Some orig
       \<and> unsaved_changes (fst (fst (save_xml Posix (Write_fails left) st fs))) = unsaved_changes st"
proof -
  obtain b where b: "with_suffix cur ''.xml.bak'' = Inr b"
    using assms(2) by (simp add: with_suffix_def)
  show ?thesis
    by (simp add: save_xml_failure_result [where fs = fs and st = st, OF assms b])
qed

lemma save_xml_success:
  assumes cur: "current_file st = Some cur" and name: "path_name cur \<noteq> []"
    and r: "root st = Some r" and orig: "fs cur = Some orig"
    and b: "with_suffix cur ''.xml.bak'' = Inr b"
  shows "save_xml Posix Write_ok st fs =
           ((st\<lparr>unsaved_changes := False,
                notices := notices st @ [Status ''File saved successfully'']\<rparr>,
             (fs(b \<mapsto> orig))(cur \<mapsto> Serialized r)), None)"
proof -
  have ne: "b \<noteq> cur" using b by (rule with_suffix_differs)
  have nonempty: "cur \<noteq> []" using name by (auto simp add: path_name_def)
  have "((fs(cur := None))(b \<mapsto> orig))(cur \<mapsto> Serialized r) = (fs(b \<mapsto> orig))(cur \<mapsto> Serialized r)"
    using ne by (auto simp add: fun_eq_iff)
  then show ?thesis
    using cur r b orig ne nonempty
    by (simp add: save_xml_def tree_write_def rename_def)
qed

lemma save_xml_write_failure_posix_example:
  "snd (save_xml Posix (Write_fails (Some Truncated)) dirty_session disk) = None
   \<and> snd (fst (save_xml Posix (Write_fails (Some Truncated)) dirty_session disk)) ''inventory.xml'' =
       Some (Serialized (document_with stream_bare))
   \<and> unsaved_changes (fst (fst (save_xml Posix (Write_fails (Some Truncated)) dirty_session disk)))"
proof -
  have a: "current_file dirty_session = Some ''inventory.xml''"
    and c: "root dirty_session = Some (document_with stream_BHZ)"
    and u: "unsaved_changes dirty_session"
    by (simp_all add: dirty_session_def session_on_def)
  have n: "path_name ''inventory.xml'' \<noteq> []"
    by (simp add: path_name_def)
  have d: "disk ''inventory.xml'' = Some (Serialized (document_with stream_bare))"
    by (simp add: disk_def)
  from save_xml_write_failure_posix [where fs = disk and st = dirty_session and left = "Some Truncated",
      OF a n c d] u
  show ?thesis by simp
qed

text \<open>
  Where \<^verbatim>\<open>Path.rename\<close> refuses an existing target (Windows), the same holds only as long
  as the failed write left no file under the name and no backup of an earlier save is in
  the way.
\<close>

lemma save_xml_failure_nothing_left:
  assumes cur: "current_file st = Some cur" and name: "path_name cur \<noteq> []"
    and r: "root st = Some r" and orig: "fs cur = Some orig"
    and b: "with_suffix cur ''.xml.bak'' = Inr b" and free: "fs b = None"
  shows "save_xml Windows (Write_fails None) st fs =
           ((st\<lparr>notices := notices st @ [Critical ''Failed to save XML'' OSError]\<rparr>, fs), None)"
proof -
  have ne: "b \<noteq> cur" using b by (rule with_suffix_differs)
  have nonempty: "cur \<noteq> []" using name by (auto simp add: path_name_def)
  have "(((fs(cur := None))(b \<mapsto> orig))(b := None))(cur \<mapsto> orig) = fs"
    using ne orig free by (auto simp add: fun_eq_iff)
  then show ?thesis
    using cur r b orig free ne nonempty
    by (simp add: save_xml_def tree_write_def save_failed_def rename_def Let_def)
qed

text \<open>
  When the failed write left a file under the name, the rename of the handler raises
  \<^verbatim>\<open>FileExistsError\<close>, which leaves \<^verbatim>\<open>save_xml\<close>: what the write left stays under the
  original name and the original document is under the backup name only.
\<close>

lemma save_xml_failure_file_left:
  assumes cur: "current_file st = Some cur" and name: "path_name cur \<noteq> []"
    and r: "root st = Some r" and orig: "fs cur = Some orig"
    and b: "with_suffix cur ''.xml.bak'' = Inr b" and free: "fs b = None"
  shows "save_xml Windows (Write_fails (Some l)) st fs =
           ((st\<lparr>notices := notices st @ [Critical ''Failed to save XML'' OSError]\<rparr>,
             (fs(b \<mapsto> orig))(cur \<mapsto> l)), Some FileExistsError)"
proof -
  have ne: "b \<noteq> cur" using b by (rule with_suffix_differs)
  have nonempty: "cur \<noteq> []" using name by (auto simp add: path_name_def)
  have "((fs(cur := None))(b \<mapsto> orig))(cur \<mapsto> l) = (fs(b \<mapsto> orig))(cur \<mapsto> l)"
    using ne by (auto simp add: fun_eq_iff)
  then show ?thesis
    using cur r b orig free ne nonempty
    by (simp add: save_xml_def tree_write_def save_failed_def rename_def Let_def)
qed

text \<open>
  With the backup of an earlier save in the way, the first rename raises already, and so
  does the rename of the handler: nothing is written, whatever the write would have done,
  and the exception leaves \<^verbatim>\<open>save_xml\<close>.
\<close>

lemma save_xml_backup_in_the_way:
  assumes cur: "current_file st = Some cur" and name: "path_name cur \<noteq> []"
    and r: "root st = Some r" and orig: "fs cur = Some orig"
    and b: "with_suffix cur ''.xml.bak'' = Inr b" and old: "fs b = Some old"
  shows "save_xml Windows w st fs =
           ((st\<lparr>notices := notices st @ [Critical ''Failed to save XML'' FileExistsError]\<rparr>, fs),
            Some FileExistsError)"
proof -
  have ne: "b \<noteq> cur" using b by (rule with_suffix_differs)
  have nonempty: "cur \<noteq> []" using name by (auto simp add: path_name_def)
  show ?thesis
    using cur r b orig old ne nonempty
    by (simp add: save_xml_def save_failed_def rename_def Let_def)
qed

text \<open>
  C7. The claim is that after a failed write the original document is recoverable under
  its original file name and the session stays dirty. On Windows, with the session
  \<^term>\<open>dirty_session\<close> on \<^verbatim>\<open>inventory.xml\<close> and a write that raises after it has created the
  file, \<^verbatim>\<open>save_xml\<close> does not return normally: \<^verbatim>\<open>FileExistsError\<close> leaves its handler, the
  truncated file stays under \<^verbatim>\<open>inventory.xml\<close>, and the original document is under
  \<^verbatim>\<open>inventory.xml.bak\<close> only. The session is still dirty.
\<close>

theorem save_xml_restore_fails:
  "snd (save_xml Windows (Write_fails (Some Truncated)) dirty_session disk) = Some FileExistsError
   \<and> snd (fst (save_xml Windows (Write_fails (Some Truncated)) dirty_session disk)) ''inventory.xml'' =
       Some Truncated
   \<and> snd (fst (save_xml Windows (Write_fails (Some Truncated)) dirty_session disk)) ''inventory.xml.bak'' =
       Some (Serialized (document_with stream_bare))
   \<and> disk ''inventory.xml'' = Some (Serialized (document_with stream_bare))
   \<and> unsaved_changes (fst (fst (save_xml Windows (Write_fails (Some Truncated)) dirty_session disk)))"
  by code_simp

subsection \<open>The exported table\<close>

lemma py_or_cellv: "py_or (cellv d a) (cellv d b) = effective_serial d a b"
proof -
  have e: "cellv d b = (case map_of d b of None \<Rightarrow> PyStr [] | Some PyNone \<Rightarrow> PyStr []
                         | Some PyNaN \<Rightarrow> PyStr [] | Some v \<Rightarrow> v)"
    by (simp add: cellv_def split: option.splits pyval.splits)
  show ?thesis
    unfolding effective_serial_def Let_def e [symmetric]
    by (simp add: cellv_def py_or_def split: option.splits pyval.splits)
qed

lemma df_apply_total:
  "(\<And>x. x \<in> set xs \<Longrightarrow> f x = Inr (g x)) \<Longrightarrow> df_apply f xs = Inr (map g xs)"
  by (induction xs) auto

lemma df_apply_Inr:
  "df_apply f xs = Inr vs \<Longrightarrow> list_all2 (\<lambda>x v. f x = Inr v) xs vs"
  by (induction xs arbitrary: vs) (auto split: sum.splits)

lemma map_of_filter_keys:
  "map_of (filter (\<lambda>(k, v). k \<notin> K) r) key = (if key \<in> K then None else map_of r key)"
  by (induction r) auto

lemma row_or_present:
  "map_of x a = Some va \<Longrightarrow> map_of x b = Some vb \<Longrightarrow> row_or a b x = Inr (py_or va vb)"
  by (simp add: row_or_def row_get_def py_or_def)


lemma map_of_row0: "map_of (row0 cols d) k = (if k \<in> set cols then Some (cellv d k) else None)"
  by (induction cols) (auto simp add: row0_def)

lemma df_replace_DataFrame:
  "df_replace (DataFrame data) =
     \<lparr>columns = first_seen (concat (map (map fst) data)),
      rows = map (row0 (first_seen (concat (map (map fst) data)))) data\<rparr>"
  by (simp add: df_replace_def DataFrame_def Let_def row0_def cellv_def)

lemma coalesce_column_columns:
  "coalesce_column key a b df = Inr df' \<Longrightarrow> set (columns df') = insert key (set (columns df))"
  by (auto simp add: coalesce_column_def df_assign_def split: sum.splits if_splits)

lemma df_drop_Inr: "df_drop keys df = Inr df' \<Longrightarrow> set keys \<subseteq> set (columns df)"
  by (auto simp add: df_drop_def filter_empty_conv split: list.splits)

lemma map_zip_same: "map (\<lambda>(x, v). h x v) (zip xs (map g xs)) = map (\<lambda>x. h x (g x)) xs"
  by (induction xs) auto

lemma coalesce_column_present:
  assumes "\<And>x. x \<in> set (rows df) \<Longrightarrow> map_of x a = Some (va x) \<and> map_of x b = Some (vb x)"
  shows "coalesce_column key a b df =
           Inr \<lparr>columns = (if key \<in> set (columns df) then columns df else columns df @ [key]),
                rows = map (\<lambda>x. AList.update key (py_or (va x) (vb x)) x) (rows df)\<rparr>"
proof -
  have "df_apply (row_or a b) (rows df) = Inr (map (\<lambda>x. py_or (va x) (vb x)) (rows df))"
    by (rule df_apply_total) (simp add: assms row_or_present)
  then show ?thesis
    by (simp add: coalesce_column_def df_assign_def map_zip_same)
qed

lemma export_frame_keys:
  assumes "export_frame data = Inr df"
  shows "set serial_keys \<subseteq> set (first_seen (concat (map (map fst) data)))"
proof -
  let ?cols = "first_seen (concat (map (map fst) data))"
  from assms obtain df1 df2 where
    c1: "coalesce_column ''sensor_serial_number''
           ''sensor_serial_number_stream'' ''sensor_serial_number_equipment''
           (df_replace (DataFrame data)) = Inr df1"
    and c2: "coalesce_column ''datalogger_serial_number''
           ''datalogger_serial_number_stream'' ''datalogger_serial_number_equipment'' df1 = Inr df2"
    and d: "df_drop serial_keys df2 = Inr df"
    by (auto simp add: export_frame_def serial_keys_def split: sum.splits)
  have "set (columns df2) = insert ''datalogger_serial_number'' (insert ''sensor_serial_number'' (set ?cols))"
    using coalesce_column_columns [OF c1] coalesce_column_columns [OF c2]
    by (simp add: df_replace_DataFrame)
  moreover have "set serial_keys \<subseteq> set (columns df2)"
    using d by (rule df_drop_Inr)
  ultimately show ?thesis
    by (auto simp add: serial_keys_def)
qed

lemma export_frame_rows:
  assumes "export_frame data = Inr df"
  shows "rows df = map (final_row (first_seen (concat (map (map fst) data)))) data"
    and "set (columns df) \<inter> set serial_keys = {}"
    and "''sensor_serial_number'' \<in> set (columns df)"
    and "''datalogger_serial_number'' \<in> set (columns df)"
proof -
  let ?cols = "first_seen (concat (map (map fst) data))"
  let ?df0 = "df_replace (DataFrame data)"
  have keys: "set serial_keys \<subseteq> set ?cols"
    using assms by (rule export_frame_keys)
  have c1: "coalesce_column ''sensor_serial_number''
           ''sensor_serial_number_stream'' ''sensor_serial_number_equipment'' ?df0 =
        Inr \<lparr>columns = (if ''sensor_serial_number'' \<in> set (columns ?df0) then columns ?df0
                         else columns ?df0 @ [''sensor_serial_number'']),
             rows = map (\<lambda>x. AList.update ''sensor_serial_number''
                           (py_or (the (map_of x ''sensor_serial_number_stream''))
                                  (the (map_of x ''sensor_serial_number_equipment''))) x) (rows ?df0)\<rparr>"
    (is "_ = Inr ?df1")
    by (rule coalesce_column_present)
       (use keys in \<open>auto simp add: df_replace_DataFrame map_of_row0 serial_keys_def\<close>)
  have c2: "coalesce_column ''datalogger_serial_number''
           ''datalogger_serial_number_stream'' ''datalogger_serial_number_equipment'' ?df1 =
        Inr \<lparr>columns = (if ''datalogger_serial_number'' \<in> set (columns ?df1) then columns ?df1
                         else columns ?df1 @ [''datalogger_serial_number'']),
             rows = map (\<lambda>x. AList.update ''datalogger_serial_number''
                           (py_or (the (map_of x ''datalogger_serial_number_stream''))
                                  (the (map_of x ''datalogger_serial_number_equipment''))) x) (rows ?df1)\<rparr>"
    (is "_ = Inr ?df2")
    by (rule coalesce_column_present)
       (use keys in \<open>auto simp add: df_replace_DataFrame map_of_row0 serial_keys_def AList.update_conv'\<close>)
  have d: "df_drop serial_keys ?df2 = Inr df"
    using assms by (simp add: export_frame_def c1 c2 serial_keys_def)
  have sub: "set serial_keys \<subseteq> set (columns ?df2)"
    using d by (rule df_drop_Inr)
  then have nil: "filter (\<lambda>k. k \<notin> set (columns ?df2)) serial_keys = []"
    by (auto simp add: filter_empty_conv)
  from d have df: "df = \<lparr>columns = filter (\<lambda>k. k \<notin> set serial_keys) (columns ?df2),
                        rows = map (filter (\<lambda>(k, v). k \<notin> set serial_keys)) (rows ?df2)\<rparr>"
    unfolding df_drop_def nil by simp
  show "rows df = map (final_row ?cols) data"
    unfolding df
    using keys
    by (simp add: df_replace_DataFrame final_row_def map_of_row0 AList.update_conv'
        py_or_cellv serial_keys_def)
  show "set (columns df) \<inter> set serial_keys = {}"
    unfolding df by auto
  show "''sensor_serial_number'' \<in> set (columns df)"
    unfolding df by (simp add: serial_keys_def)
  show "''datalogger_serial_number'' \<in> set (columns df)"
    unfolding df by (simp add: serial_keys_def)
qed

lemma final_row_serials:
  "map_of (final_row cols d) ''sensor_serial_number'' =
     Some (effective_serial d ''sensor_serial_number_stream'' ''sensor_serial_number_equipment'')"
  "map_of (final_row cols d) ''datalogger_serial_number'' =
     Some (effective_serial d ''datalogger_serial_number_stream'' ''datalogger_serial_number_equipment'')"
  unfolding final_row_def map_of_filter_keys
  by (simp_all add: AList.update_conv' serial_keys_def)

lemma list_all2_map_same: "list_all2 P xs (map h xs) \<longleftrightarrow> list_all (\<lambda>x. P x (h x)) xs"
  by (induction xs) auto

text \<open>A table is written exactly when there are records and each of the four per-level
  columns occurs in some record.\<close>

lemma set_first_seen: "set (first_seen ks) = set ks"
  by (simp add: first_seen_def)

lemma export_frame_succeeds:
  assumes "set serial_keys \<subseteq> (\<Union>r \<in> set data. fst ` set r)"
  shows "\<exists>df. export_frame data = Inr df"
proof -
  let ?cols = "first_seen (concat (map (map fst) data))"
  let ?df0 = "df_replace (DataFrame data)"
  have keys: "set serial_keys \<subseteq> set ?cols"
    using assms by (auto simp add: set_first_seen)
  have c1: "coalesce_column ''sensor_serial_number''
           ''sensor_serial_number_stream'' ''sensor_serial_number_equipment'' ?df0 =
        Inr \<lparr>columns = (if ''sensor_serial_number'' \<in> set (columns ?df0) then columns ?df0
                         else columns ?df0 @ [''sensor_serial_number'']),
             rows = map (\<lambda>x. AList.update ''sensor_serial_number''
                           (py_or (the (map_of x ''sensor_serial_number_stream''))
                                  (the (map_of x ''sensor_serial_number_equipment''))) x) (rows ?df0)\<rparr>"
    (is "_ = Inr ?df1")
    by (rule coalesce_column_present)
       (use keys in \<open>auto simp add: df_replace_DataFrame map_of_row0 serial_keys_def\<close>)
  have c2: "coalesce_column ''datalogger_serial_number''
           ''datalogger_serial_number_stream'' ''datalogger_serial_number_equipment'' ?df1 =
        Inr \<lparr>columns = (if ''datalogger_serial_number'' \<in> set (columns ?df1) then columns ?df1
                         else columns ?df1 @ [''datalogger_serial_number'']),
             rows = map (\<lambda>x. AList.update ''datalogger_serial_number''
                           (py_or (the (map_of x ''datalogger_serial_number_stream''))
                                  (the (map_of x ''datalogger_serial_number_equipment''))) x) (rows ?df1)\<rparr>"
    (is "_ = Inr ?df2")
    by (rule coalesce_column_present)
       (use keys in \<open>auto simp add: df_replace_DataFrame map_of_row0 serial_keys_def AList.update_conv'\<close>)
  have "set serial_keys \<subseteq> set (columns ?df2)"
    using keys by (auto simp add: df_replace_DataFrame)
  then have "filter (\<lambda>k. k \<notin> set (columns ?df2)) serial_keys = []"
    by (auto simp add: filter_empty_conv)
  then have "\<exists>df. df_drop serial_keys ?df2 = Inr df"
    unfolding df_drop_def by simp
  then show ?thesis
    by (simp add: export_frame_def c1 c2 serial_keys_def)
qed

lemma export_to_csv_writes_iff:
  "snd (export_to_csv az) \<noteq> None \<longleftrightarrow>
     unified_data az \<noteq> [] \<and> set serial_keys \<subseteq> (\<Union>r \<in> set (unified_data az). fst ` set r)"
proof
  assume "snd (export_to_csv az) \<noteq> None"
  then obtain df where ne: "unified_data az \<noteq> []" and e: "export_frame (unified_data az) = Inr df"
    by (auto simp add: export_to_csv_def split: if_splits sum.splits)
  from export_frame_keys [OF e] ne
  show "unified_data az \<noteq> [] \<and> set serial_keys \<subseteq> (\<Union>r \<in> set (unified_data az). fst ` set r)"
    by (auto simp add: set_first_seen)
next
  assume a: "unified_data az \<noteq> [] \<and> set serial_keys \<subseteq> (\<Union>r \<in> set (unified_data az). fst ` set r)"
  then obtain df where "export_frame (unified_data az) = Inr df"
    using export_frame_succeeds by blast
  then show "snd (export_to_csv az) \<noteq> None"
    using a by (simp add: export_to_csv_def)
qed

text \<open>
  When \<^verbatim>\<open>export_to_csv\<close> writes a table, every record has a row in it, in order, whose
  \<^verbatim>\<open>sensor_serial_number\<close> (resp. \<^verbatim>\<open>datalogger_serial_number\<close>) is the stream-level value when
  that is present and non-empty, otherwise the equipment-level value, and empty when both
  are; the four per-level columns are not among the columns of the table.
\<close>

lemma export_coalesces_serials:
  assumes "export_to_csv az = (az', Some df)"
  shows "list_all2
           (\<lambda>r row.
              map_of row ''sensor_serial_number'' =
                Some (effective_serial r ''sensor_serial_number_stream'' ''sensor_serial_number_equipment'')
              \<and> map_of row ''datalogger_serial_number'' =
                Some (effective_serial r ''datalogger_serial_number_stream''
                        ''datalogger_serial_number_equipment''))
           (unified_data az) (rows df)
       \<and> ''sensor_serial_number'' \<in> set (columns df)
       \<and> ''datalogger_serial_number'' \<in> set (columns df)
       \<and> ''sensor_serial_number_stream'' \<notin> set (columns df)
       \<and> ''sensor_serial_number_equipment'' \<notin> set (columns df)
       \<and> ''datalogger_serial_number_stream'' \<notin> set (columns df)
       \<and> ''datalogger_serial_number_equipment'' \<notin> set (columns df)"
proof -
  from assms have e: "export_frame (unified_data az) = Inr df"
    by (auto simp add: export_to_csv_def split: if_splits sum.splits)
  have "set (columns df) \<inter> set serial_keys = {}"
    using e by (rule export_frame_rows(2))
  then have "''sensor_serial_number_stream'' \<notin> set (columns df)"
    and "''sensor_serial_number_equipment'' \<notin> set (columns df)"
    and "''datalogger_serial_number_stream'' \<notin> set (columns df)"
    and "''datalogger_serial_number_equipment'' \<notin> set (columns df)"
    by (auto simp add: serial_keys_def)
  then show ?thesis
    using export_frame_rows(3,4) [OF e]
    by (simp add: export_frame_rows(1) [OF e] list_all2_map_same final_row_serials list_all_iff)
qed

lemma export_example:
  "export_to_csv (analyzer_init\<lparr>unified_data := [record_both, record_unresolved]\<rparr>) =
     (analyzer_init\<lparr>unified_data := [record_both, record_unresolved]\<rparr>,
      Some \<lparr>columns = [''channel'', ''sensor_serial_number'', ''datalogger_serial_number''],
            rows = [[(''channel'', PyStr ''BHZ''), (''sensor_serial_number'', PyStr ''S1''),
                     (''datalogger_serial_number'', PyStr ''D1'')],
                    [(''channel'', PyStr ''BHN''), (''sensor_serial_number'', PyStr ''''),
                     (''datalogger_serial_number'', PyStr '''')]]\<rparr>)"
  by code_simp

lemma export_without_equipment:
  "export_to_csv (analyzer_init\<lparr>unified_data := [record_unresolved]\<rparr>) =
     (analyzer_init\<lparr>unified_data := [record_unresolved],
        stderr_lines := [Error_exporting_CSV (KeyError ''sensor_serial_number_equipment'')]\<rparr>, None)"
  by code_simp

lemma export_coalesces_serials_example:
  "list_all2
     (\<lambda>r row.
        map_of row ''sensor_serial_number'' =
          Some (effective_serial r ''sensor_serial_number_stream'' ''sensor_serial_number_equipment'')
        \<and> map_of row ''datalogger_serial_number'' =
          Some (effective_serial r ''datalogger_serial_number_stream''
                  ''datalogger_serial_number_equipment''))
     [record_both, record_unresolved]
     [[(''channel'', PyStr ''BHZ''), (''sensor_serial_number'', PyStr ''S1''),
       (''datalogger_serial_number'', PyStr ''D1'')],
      [(''channel'', PyStr ''BHN''), (''sensor_serial_number'', PyStr ''''),
       (''datalogger_serial_number'', PyStr '''')]]
   \<and> effective_serial record_both ''sensor_serial_number_stream'' ''sensor_serial_number_equipment'' = PyStr ''S1''
   \<and> effective_serial record_both ''datalogger_serial_number_stream'' ''datalogger_serial_number_equipment'' = PyStr ''D1''
   \<and> effective_serial record_unresolved ''sensor_serial_number_stream'' ''sensor_serial_number_equipment'' = PyStr ''''"
proof -
  have u: "unified_data (analyzer_init\<lparr>unified_data := [record_both, record_unresolved]\<rparr>) =
      [record_both, record_unresolved]"
    by simp
  have e1: "effective_serial record_both ''sensor_serial_number_stream'' ''sensor_serial_number_equipment'' = PyStr ''S1''"
    and e2: "effective_serial record_both ''datalogger_serial_number_stream'' ''datalogger_serial_number_equipment'' = PyStr ''D1''"
    and e3: "effective_serial record_unresolved ''sensor_serial_number_stream'' ''sensor_serial_number_equipment'' = PyStr ''''"
    by code_simp+
  from export_coalesces_serials [OF export_example] e1 e2 e3
  show ?thesis by (simp only: u dataframe.simps)
qed

text \<open>
  C2. The claim is that every record of the final table reports the stream-level serial
  number if present and non-empty, otherwise the equipment-level one, and the empty value
  if both are empty. In \<^term>\<open>two_station_document\<close> the streams resolve a sensor but no
  datalogger, so that no record has the key \<^verbatim>\<open>datalogger_serial_number_equipment\<close> and the
  frame has no such column: the four records are resolved, the lambda of the second
  \<^verbatim>\<open>df.apply\<close> raises \<^verbatim>\<open>KeyError\<close>, the handler prints it, and no table is written.
\<close>

theorem export_to_csv_key_error:
  "map (\<lambda>r. map_of r ''channel'')
       (unified_data (fst (parse_inventory (Inr two_station_document) analyzer_init))) =
     [Some (PyStr ''BHZ''), Some (PyStr ''BHN''), Some (PyStr ''HHZ''), Some (PyStr ''LHZ'')]
   \<and> map (\<lambda>r. map_of r ''datalogger_serial_number_stream'')
       (unified_data (fst (parse_inventory (Inr two_station_document) analyzer_init))) =
     [Some PyNone, Some PyNone, Some PyNone, Some PyNone]
   \<and> map (\<lambda>r. map_of r ''datalogger_serial_number_equipment'')
       (unified_data (fst (parse_inventory (Inr two_station_document) analyzer_init))) =
     [None, None, None, None]
   \<and> snd (export_to_csv (fst (parse_inventory (Inr two_station_document) analyzer_init))) = None
   \<and> stderr_lines (fst (export_to_csv (fst (parse_inventory (Inr two_station_document) analyzer_init)))) =
       [Error_exporting_CSV (KeyError ''datalogger_serial_number_equipment'')]"
  by code_simp

subsection \<open>The walk and the streams of a valid document\<close>

lemma stream_data_Inr:
  "\<exists>d. stream_data sl dl nc ns ne sc ss se lc lat lon el s = Inr d"
  by (simp add: stream_data_def Let_def)

lemma resolved_refl: "resolved az az []"
  by (simp add: resolved_def)

lemma resolved_trans:
  "resolved az az' rs \<Longrightarrow> resolved az' az'' rs' \<Longrightarrow> resolved az az'' (rs @ rs')"
  by (simp add: resolved_def)

lemma resolved_lookups:
  "resolved az az' rs \<Longrightarrow> sensor_lookup az' = sensor_lookup az \<and> datalogger_lookup az' = datalogger_lookup az"
  by (simp add: resolved_def)

lemma process_stream_resolved:
  "resolved az (process_stream nc ns ne sc ss se lc lat lon el s az)
     [stream_data (sensor_lookup az) (datalogger_lookup az) nc ns ne sc ss se lc lat lon el s]"
proof -
  obtain d where "stream_data (sensor_lookup az) (datalogger_lookup az) nc ns ne sc ss se lc lat lon el s = Inr d"
    using stream_data_Inr by blast
  then show ?thesis
    by (simp add: process_stream_def resolved_def)
qed

lemma fold_resolved:
  assumes "\<And>x az. resolved az (f x az) (g (sensor_lookup az) (datalogger_lookup az) x)"
  shows "resolved az (fold f xs az) (concat (map (g (sensor_lookup az) (datalogger_lookup az)) xs))"
proof (induction xs arbitrary: az)
  case Nil
  then show ?case by (simp add: resolved_refl)
next
  case (Cons x xs)
  have step: "resolved az (f x az) (g (sensor_lookup az) (datalogger_lookup az) x)"
    by (rule assms)
  have rest: "resolved (f x az) (fold f xs (f x az))
      (concat (map (g (sensor_lookup az) (datalogger_lookup az)) xs))"
    using Cons.IH [of "f x az"] resolved_lookups [OF step] by simp
  show ?case
    using resolved_trans [OF step rest] by simp
qed

lemma process_location_resolved:
  "resolved az (process_location nc ns ne sc ss se location az)
     (map (\<lambda>stream. stream_data (sensor_lookup az) (datalogger_lookup az) nc ns ne sc ss se
             (get_default location ''code'' '''') (get_element_text location ''latitude'')
             (get_element_text location ''longitude'') (get_element_text location ''elevation'')
             stream)
        (findall location ''stream''))"
  unfolding process_location_def
  using fold_resolved [where f = "process_stream nc ns ne sc ss se
             (get_default location ''code'' '''') (get_element_text location ''latitude'')
             (get_element_text location ''longitude'') (get_element_text location ''elevation'')"
      and g = "\<lambda>sl dl stream. [stream_data sl dl nc ns ne sc ss se
             (get_default location ''code'' '''') (get_element_text location ''latitude'')
             (get_element_text location ''longitude'') (get_element_text location ''elevation'')
             stream]" and az = az and xs = "findall location ''stream''",
      OF process_stream_resolved]
  by (simp add: concat_map_singleton)

lemma process_networks_resolved:
  "resolved az (process_networks inventory az)
     (map (record_of (sensor_lookup az) (datalogger_lookup az)) (visited inventory))"
proof -
  have loc: "\<And>network station location az.
      resolved az
        (process_location (get_default network ''code'' '''') (get_element_text network ''start'')
           (get_element_text network ''end'') (get_default station ''code'' '''')
           (get_element_text station ''start'') (get_element_text station ''end'') location az)
        (map (\<lambda>stream. record_of (sensor_lookup az) (datalogger_lookup az)
                (network, station, location, stream)) (findall location ''stream''))"
    using process_location_resolved by (simp add: record_of_def)
  have sta: "\<And>network station az.
      resolved az
        (process_station (get_default network ''code'' '''') (get_element_text network ''start'')
           (get_element_text network ''end'') station az)
        (concat (map (\<lambda>location. map (\<lambda>stream. record_of (sensor_lookup az) (datalogger_lookup az)
                (network, station, location, stream)) (findall location ''stream''))
           (findall_desc station ''sensorLocation'')))"
    unfolding process_station_def
    by (rule fold_resolved [where g = "\<lambda>sl dl location. map (\<lambda>stream. record_of sl dl
                (_, _, location, stream)) (findall location ''stream'')"]) (rule loc)
  have net: "\<And>network az.
      resolved az
        (fold (process_station (get_default network ''code'' '''')
                 (get_element_text network ''start'') (get_element_text network ''end''))
           (findall_desc network ''station'') az)
        (concat (map (\<lambda>station. concat (map (\<lambda>location.
             map (\<lambda>stream. record_of (sensor_lookup az) (datalogger_lookup az)
                (network, station, location, stream)) (findall location ''stream''))
           (findall_desc station ''sensorLocation'')))
           (findall_desc network ''station'')))"
    by (rule fold_resolved [where g = "\<lambda>sl dl station. concat (map (\<lambda>location.
             map (\<lambda>stream. record_of sl dl (_, station, location, stream))
               (findall location ''stream''))
           (findall_desc station ''sensorLocation''))"]) (rule sta)
  have "resolved az (process_networks inventory az)
        (concat (map (\<lambda>network. concat (map (\<lambda>station. concat (map (\<lambda>location.
             map (\<lambda>stream. record_of (sensor_lookup az) (datalogger_lookup az)
                (network, station, location, stream)) (findall location ''stream''))
           (findall_desc station ''sensorLocation'')))
           (findall_desc network ''station'')))
           (findall_desc inventory ''network'')))"
    unfolding process_networks_def
    by (rule fold_resolved [where g = "\<lambda>sl dl network. concat (map (\<lambda>station. concat (map (\<lambda>location.
             map (\<lambda>stream. record_of sl dl (network, station, location, stream))
               (findall location ''stream''))
           (findall_desc station ''sensorLocation'')))
           (findall_desc network ''station''))"]) (rule net)
  then show ?thesis
    by (simp add: visited_def map_concat comp_def)
qed

lemma findall_desc_unfold:
  "findall_desc e t =
     concat (map (\<lambda>c. if tag c = sc3 t then c # findall_desc c t else findall_desc c t)
       (children e))"
proof -
  have "descendants e = concat (map (\<lambda>c. c # descendants c) (children e))"
    by (cases e) simp
  then show ?thesis
    unfolding findall_desc_def by (simp add: filter_concat comp_def)
qed

lemma doc_streams_unfold:
  "doc_streams e =
     concat (map (\<lambda>c. (if tag e = sc3 ''sensorLocation'' \<and> tag c = sc3 ''stream'' then [c] else [])
                       @ doc_streams c) (children e))"
  by (cases e) simp

lemma concat_map_if:
  "concat (map (\<lambda>c. if P c then f c else []) xs) = concat (map f (filter P xs))"
  by (induction xs) auto

lemma concat_map_if_single:
  "concat (map (\<lambda>c. if P c then [c] else []) xs) = filter P xs"
  by (induction xs) auto

lemma hier_free_Elem:
  "hier_free e \<longleftrightarrow> \<not> hierarchy_tag (tag e) \<and> list_all hier_free (children e)"
  by (cases e) (auto simp add: hier_free_def list_all_iff)

lemma hier_free_tag: "hier_free e \<Longrightarrow> \<not> hierarchy_tag (tag e)"
  by (simp add: hier_free_Elem)

lemma hier_free_child: "hier_free e \<Longrightarrow> c \<in> set (children e) \<Longrightarrow> hier_free c"
  by (simp add: hier_free_Elem [of e] list_all_iff)

lemma hier_free_findall_desc:
  "hier_free e \<Longrightarrow> hierarchy_tag (sc3 t) \<Longrightarrow> findall_desc e t = []"
proof (induction e)
  case (Elem tg a x cs)
  from Elem.prems(1) have kids: "\<And>c. c \<in> set cs \<Longrightarrow> hier_free c"
    using hier_free_child [of "Elem tg a x cs"] by simp
  have "\<And>c. c \<in> set cs \<Longrightarrow> tag c \<noteq> sc3 t"
    using kids Elem.prems(2) hier_free_tag by force
  moreover have "\<And>c. c \<in> set cs \<Longrightarrow> findall_desc c t = []"
    using Elem.IH kids Elem.prems(2) by blast
  ultimately show ?case
    by (subst findall_desc_unfold) simp
qed

lemma hier_free_doc_streams: "hier_free e \<Longrightarrow> doc_streams e = []"
proof (induction e)
  case (Elem tg a x cs)
  from Elem.prems have kids: "\<And>c. c \<in> set cs \<Longrightarrow> hier_free c"
    and tg: "tg \<noteq> sc3 ''sensorLocation''"
    using hier_free_child [of "Elem tg a x cs"] hier_free_tag [of "Elem tg a x cs"]
    by (auto simp add: hierarchy_tag_def)
  then show ?case
    using Elem.IH by simp
qed

lemma findall_desc_children:
  assumes "\<And>c. c \<in> set (children e) \<Longrightarrow> findall_desc c t = []"
  shows "findall_desc e t = findall e t"
proof -
  have "findall_desc e t =
        concat (map (\<lambda>c. if tag c = sc3 t then c # findall_desc c t else findall_desc c t)
          (children e))"
    by (rule findall_desc_unfold)
  also have "\<dots> = concat (map (\<lambda>c. if tag c = sc3 t then [c] else []) (children e))"
    by (rule arg_cong [where f = concat], rule map_cong) (simp_all add: assms)
  also have "\<dots> = findall e t"
    by (simp add: findall_def concat_map_if_single)
  finally show ?thesis .
qed

lemma findall_desc_none:
  assumes "\<And>c. c \<in> set (children e) \<Longrightarrow> tag c \<noteq> sc3 t \<and> findall_desc c t = []"
  shows "findall_desc e t = []"
proof -
  have "\<And>c. c \<in> set (children e) \<Longrightarrow>
      (if tag c = sc3 t then c # findall_desc c t else findall_desc c t) = []"
    using assms by auto
  then show ?thesis
    by (subst findall_desc_unfold) simp
qed

lemma hierarchy_tags [simp]:
  "hierarchy_tag (sc3 ''network'')" "hierarchy_tag (sc3 ''station'')"
  "hierarchy_tag (sc3 ''sensorLocation'')"
  by (simp_all add: hierarchy_tag_def)

lemma valid_location_none:
  assumes "valid_location l" and "hierarchy_tag (sc3 t)"
  shows "findall_desc l t = []"
proof (rule findall_desc_none)
  fix c assume "c \<in> set (children l)"
  with assms(1) have "hier_free c"
    by (simp add: valid_location_def list_all_iff)
  then show "tag c \<noteq> sc3 t \<and> findall_desc c t = []"
    using assms(2) hier_free_tag [of c] by (auto simp add: hier_free_findall_desc)
qed

lemma valid_location_streams:
  "valid_location l \<Longrightarrow> tag l = sc3 ''sensorLocation'' \<Longrightarrow> doc_streams l = findall l ''stream''"
  by (subst doc_streams_unfold)
     (simp add: valid_location_def list_all_iff hier_free_doc_streams findall_def
        concat_map_if_single cong: map_cong)

lemma valid_station_child:
  "valid_station s \<Longrightarrow> c \<in> set (children s) \<Longrightarrow>
     (tag c = sc3 ''sensorLocation'' \<and> valid_location c) \<or> hier_free c"
  by (auto simp add: valid_station_def list_all_iff split: if_splits)

lemma valid_station_locations:
  assumes "valid_station s"
  shows "findall_desc s ''sensorLocation'' = findall s ''sensorLocation''"
proof (rule findall_desc_children)
  fix c assume "c \<in> set (children s)"
  then show "findall_desc c ''sensorLocation'' = []"
    using valid_station_child [OF assms, of c]
    by (auto simp add: valid_location_none hier_free_findall_desc)
qed

lemma valid_station_none:
  assumes "valid_station s" and "t = ''network'' \<or> t = ''station''"
  shows "findall_desc s t = []"
proof (rule findall_desc_none)
  fix c assume c: "c \<in> set (children s)"
  have h: "hierarchy_tag (sc3 t)" using assms(2) by auto
  from valid_station_child [OF assms(1) c]
  show "tag c \<noteq> sc3 t \<and> findall_desc c t = []"
  proof
    assume "tag c = sc3 ''sensorLocation'' \<and> valid_location c"
    then show ?thesis using assms(2) h by (auto simp add: valid_location_none)
  next
    assume "hier_free c"
    then show ?thesis using h by (auto simp add: hier_free_findall_desc dest: hier_free_tag)
  qed
qed

lemma station_child_streams:
  assumes "valid_station s" and "c \<in> set (children s)"
  shows "doc_streams c = (if tag c = sc3 ''sensorLocation'' then findall c ''stream'' else [])"
  using valid_station_child [OF assms] hier_free_tag [of c]
  by (auto simp add: valid_location_streams hier_free_doc_streams)

lemma valid_station_streams:
  assumes "valid_station s" and "tag s = sc3 ''station''"
  shows "doc_streams s = concat (map (\<lambda>l. findall l ''stream'') (findall s ''sensorLocation''))"
proof -
  have "doc_streams s = concat (map doc_streams (children s))"
    using assms(2) by (subst doc_streams_unfold) simp
  also have "\<dots> = concat (map (\<lambda>c. if tag c = sc3 ''sensorLocation'' then findall c ''stream'' else [])
      (children s))"
    by (rule arg_cong [where f = concat], rule map_cong) (simp_all add: station_child_streams [OF assms(1)])
  finally show ?thesis
    by (simp add: concat_map_if findall_def)
qed

lemma valid_network_child:
  "valid_network n \<Longrightarrow> c \<in> set (children n) \<Longrightarrow>
     (tag c = sc3 ''station'' \<and> valid_station c) \<or> hier_free c"
  by (auto simp add: valid_network_def list_all_iff split: if_splits)

lemma valid_network_stations:
  assumes "valid_network n"
  shows "findall_desc n ''station'' = findall n ''station''"
proof (rule findall_desc_children)
  fix c assume "c \<in> set (children n)"
  then show "findall_desc c ''station'' = []"
    using valid_network_child [OF assms, of c]
    by (auto simp add: valid_station_none [where t = "''station''"] hier_free_findall_desc)
qed

lemma valid_network_none:
  assumes "valid_network n"
  shows "findall_desc n ''network'' = []"
proof (rule findall_desc_none)
  fix c assume c: "c \<in> set (children n)"
  from valid_network_child [OF assms c]
  show "tag c \<noteq> sc3 ''network'' \<and> findall_desc c ''network'' = []"
  proof
    assume "tag c = sc3 ''station'' \<and> valid_station c"
    then show ?thesis by (auto simp add: valid_station_none)
  next
    assume "hier_free c"
    then show ?thesis by (auto simp add: hier_free_findall_desc dest: hier_free_tag)
  qed
qed

lemma network_child_streams:
  assumes "valid_network n" and "c \<in> set (children n)"
  shows "doc_streams c = (if tag c = sc3 ''station''
          then concat (map (\<lambda>l. findall l ''stream'') (findall c ''sensorLocation'')) else [])"
  using valid_network_child [OF assms] hier_free_tag [of c]
  by (auto simp add: valid_station_streams hier_free_doc_streams)

lemma valid_network_streams:
  assumes "valid_network n" and "tag n = sc3 ''network''"
  shows "doc_streams n =
           concat (map (\<lambda>s. concat (map (\<lambda>l. findall l ''stream'') (findall s ''sensorLocation'')))
             (findall n ''station''))"
proof -
  have "doc_streams n = concat (map doc_streams (children n))"
    using assms(2) by (subst doc_streams_unfold) simp
  also have "\<dots> = concat (map (\<lambda>c. if tag c = sc3 ''station''
        then concat (map (\<lambda>l. findall l ''stream'') (findall c ''sensorLocation'')) else [])
      (children n))"
    by (rule arg_cong [where f = concat], rule map_cong) (simp_all add: network_child_streams [OF assms(1)])
  finally show ?thesis
    by (simp add: concat_map_if findall_def)
qed

lemma valid_inventory_child:
  "valid_inventory i \<Longrightarrow> c \<in> set (children i) \<Longrightarrow>
     (tag c = sc3 ''network'' \<and> valid_network c) \<or> hier_free c"
  by (auto simp add: valid_inventory_def list_all_iff split: if_splits)

lemma valid_inventory_networks:
  assumes "valid_inventory i"
  shows "findall_desc i ''network'' = findall i ''network''"
proof (rule findall_desc_children)
  fix c assume "c \<in> set (children i)"
  then show "findall_desc c ''network'' = []"
    using valid_inventory_child [OF assms, of c]
    by (auto simp add: valid_network_none hier_free_findall_desc)
qed

lemma inventory_child_streams:
  assumes "valid_inventory i" and "c \<in> set (children i)"
  shows "doc_streams c = (if tag c = sc3 ''network''
          then concat (map (\<lambda>s. concat (map (\<lambda>l. findall l ''stream'')
               (findall s ''sensorLocation''))) (findall c ''station'')) else [])"
  using valid_inventory_child [OF assms] hier_free_tag [of c]
  by (auto simp add: valid_network_streams hier_free_doc_streams)

lemma valid_inventory_streams:
  assumes "valid_inventory i" and "tag i = sc3 ''Inventory''"
  shows "doc_streams i =
           concat (map (\<lambda>n. concat (map (\<lambda>s. concat (map (\<lambda>l. findall l ''stream'')
               (findall s ''sensorLocation''))) (findall n ''station'')))
             (findall i ''network''))"
proof -
  have "doc_streams i = concat (map doc_streams (children i))"
    using assms(2) by (subst doc_streams_unfold) simp
  also have "\<dots> = concat (map (\<lambda>c. if tag c = sc3 ''network''
        then concat (map (\<lambda>s. concat (map (\<lambda>l. findall l ''stream'')
               (findall s ''sensorLocation''))) (findall c ''station'')) else [])
      (children i))"
    by (rule arg_cong [where f = concat], rule map_cong) (simp_all add: inventory_child_streams [OF assms(1)])
  finally show ?thesis
    by (simp add: concat_map_if findall_def)
qed

lemma station_level:
  assumes "valid_station s"
  shows "map (\<lambda>v. snd (snd (snd v)))
           (concat (map (\<lambda>l. map (\<lambda>st. (n, s, l, st)) (findall l ''stream''))
              (findall_desc s ''sensorLocation''))) =
         concat (map (\<lambda>l. findall l ''stream'') (findall s ''sensorLocation''))"
  by (simp add: valid_station_locations [OF assms] map_concat comp_def)

lemma network_level:
  assumes "valid_network n"
  shows "map (\<lambda>v. snd (snd (snd v)))
           (concat (map (\<lambda>s. concat (map (\<lambda>l. map (\<lambda>st. (n, s, l, st)) (findall l ''stream''))
              (findall_desc s ''sensorLocation''))) (findall_desc n ''station''))) =
         concat (map (\<lambda>s. concat (map (\<lambda>l. findall l ''stream'') (findall s ''sensorLocation'')))
           (findall n ''station''))"
proof -
  have v: "\<And>s. s \<in> set (findall n ''station'') \<Longrightarrow> valid_station s"
    using valid_network_child [OF assms] hier_free_tag
    by (fastforce simp add: findall_def)
  have "map (\<lambda>v. snd (snd (snd v)))
           (concat (map (\<lambda>s. concat (map (\<lambda>l. map (\<lambda>st. (n, s, l, st)) (findall l ''stream''))
              (findall_desc s ''sensorLocation''))) (findall n ''station''))) =
        concat (map (\<lambda>s. map (\<lambda>v. snd (snd (snd v)))
           (concat (map (\<lambda>l. map (\<lambda>st. (n, s, l, st)) (findall l ''stream''))
              (findall_desc s ''sensorLocation'')))) (findall n ''station''))"
    by (simp add: map_concat comp_def)
  also have "\<dots> = concat (map (\<lambda>s. concat (map (\<lambda>l. findall l ''stream'') (findall s ''sensorLocation'')))
           (findall n ''station''))"
    by (rule arg_cong [where f = concat], rule map_cong) (simp_all add: station_level v)
  finally show ?thesis
    by (simp add: valid_network_stations [OF assms])
qed

lemma inventory_level:
  assumes "valid_inventory i"
  shows "map (\<lambda>v. snd (snd (snd v))) (visited i) =
         concat (map (\<lambda>n. concat (map (\<lambda>s. concat (map (\<lambda>l. findall l ''stream'')
               (findall s ''sensorLocation''))) (findall n ''station'')))
           (findall i ''network''))"
proof -
  have v: "\<And>n. n \<in> set (findall i ''network'') \<Longrightarrow> valid_network n"
    using valid_inventory_child [OF assms] hier_free_tag
    by (fastforce simp add: findall_def)
  have "map (\<lambda>v. snd (snd (snd v))) (visited i) =
        concat (map (\<lambda>n. map (\<lambda>v. snd (snd (snd v)))
           (concat (map (\<lambda>s. concat (map (\<lambda>l. map (\<lambda>st. (n, s, l, st)) (findall l ''stream''))
              (findall_desc s ''sensorLocation''))) (findall_desc n ''station''))))
           (findall i ''network''))"
    by (simp add: visited_def valid_inventory_networks [OF assms] map_concat comp_def)
  also have "\<dots> = concat (map (\<lambda>n. concat (map (\<lambda>s. concat (map (\<lambda>l. findall l ''stream'')
               (findall s ''sensorLocation''))) (findall n ''station'')))
           (findall i ''network''))"
    by (rule arg_cong [where f = concat], rule map_cong) (simp_all add: network_level v)
  finally show ?thesis .
qed

lemma concat_map_only:
  "filter P xs = [x] \<Longrightarrow> (\<And>c. c \<in> set xs \<Longrightarrow> \<not> P c \<Longrightarrow> f c = []) \<Longrightarrow> concat (map f xs) = f x"
proof (induction xs)
  case Nil
  then show ?case by simp
next
  case (Cons a xs)
  show ?case
  proof (cases "P a")
    case True
    with Cons.prems(1) have a: "a = x" and none: "filter P xs = []" by auto
    then have "\<And>c. c \<in> set xs \<Longrightarrow> f c = []"
      using Cons.prems(2) by (auto simp add: filter_empty_conv)
    then show ?thesis using a by simp
  next
    case False
    then have "f a = []" using Cons.prems(2) by simp
    moreover have "concat (map f xs) = f x"
      using Cons.IH Cons.prems False by auto
    ultimately show ?thesis by simp
  qed
qed

lemma valid_document_streams:
  assumes "valid_document r" and "findall r ''Inventory'' = [i]"
  shows "doc_streams r = map (\<lambda>v. snd (snd (snd v))) (visited i)"
    and "find_elem r ''Inventory'' = Some i"
proof -
  from assms have tg: "tag r = sc3 ''seiscomp''" and vi: "valid_inventory i"
    and rest: "\<And>c. c \<in> set (children r) \<Longrightarrow> tag c \<noteq> sc3 ''Inventory'' \<Longrightarrow> hier_free c"
    by (auto simp add: valid_document_def list_all_iff split: if_splits)
  have ti: "tag i = sc3 ''Inventory''"
    using assms(2) by (auto simp add: findall_def filter_eq_Cons_iff)
  have "doc_streams r = concat (map doc_streams (children r))"
    using tg by (subst doc_streams_unfold) (simp add: sc3_def)
  also have "\<dots> = doc_streams i"
    by (rule concat_map_only [where P = "\<lambda>c. tag c = sc3 ''Inventory''"])
       (use assms(2) rest in \<open>auto simp add: findall_def hier_free_doc_streams\<close>)
  also have "\<dots> = map (\<lambda>v. snd (snd (snd v))) (visited i)"
    by (simp add: valid_inventory_streams [OF vi ti] inventory_level [OF vi])
  finally show "doc_streams r = map (\<lambda>v. snd (snd (snd v))) (visited i)" .
  show "find_elem r ''Inventory'' = Some i"
    by (simp add: find_elem_findall assms(2))
qed

lemma build_lookup_tables_data [simp]:
  "unified_data (build_lookup_tables i az) = unified_data az"
  "stderr_lines (build_lookup_tables i az) = stderr_lines az"
  by (simp_all add: build_lookup_tables_def)

lemma parse_inventory_resolved:
  assumes "find_elem r ''Inventory'' = Some i"
  shows "snd (parse_inventory (Inr r) az) = None"
    and "resolved (build_lookup_tables i az) (fst (parse_inventory (Inr r) az))
           (map (record_of (sensor_lookup (build_lookup_tables i az))
                   (datalogger_lookup (build_lookup_tables i az))) (visited i))"
  using process_networks_resolved [of "build_lookup_tables i az" i]
  by (simp_all add: parse_inventory_def parse_inventory_try_def assms)

text \<open>
  C1. For every valid document, \<^verbatim>\<open>parse_inventory\<close> returns with nothing reported and with
  \<^verbatim>\<open>unified_data\<close> holding, one for one and in order, the resolutions of the streams the walk
  visits, and these are exactly the \<^verbatim>\<open>stream\<close> children of sensor locations in document
  order.
\<close>

theorem parse_inventory_one_record_per_stream:
  assumes "valid_document root_elem" and "findall root_elem ''Inventory'' = [inventory]"
  shows "snd (parse_inventory (Inr root_elem) analyzer_init) = None
       \<and> stderr_lines (fst (parse_inventory (Inr root_elem) analyzer_init)) = []
       \<and> map Inr (unified_data (fst (parse_inventory (Inr root_elem) analyzer_init))) =
           map (record_of (sensor_lookup (fst (parse_inventory (Inr root_elem) analyzer_init)))
                  (datalogger_lookup (fst (parse_inventory (Inr root_elem) analyzer_init))))
             (visited inventory)
       \<and> map (\<lambda>v. snd (snd (snd v))) (visited inventory) = doc_streams root_elem
       \<and> length (unified_data (fst (parse_inventory (Inr root_elem) analyzer_init))) =
           length (doc_streams root_elem)"
proof -
  let ?az = "fst (parse_inventory (Inr root_elem) analyzer_init)"
  have f: "find_elem root_elem ''Inventory'' = Some inventory"
    and d: "doc_streams root_elem = map (\<lambda>v. snd (snd (snd v))) (visited inventory)"
    using valid_document_streams [OF assms] by simp_all
  have r: "resolved (build_lookup_tables inventory analyzer_init) ?az
           (map (record_of (sensor_lookup (build_lookup_tables inventory analyzer_init))
                   (datalogger_lookup (build_lookup_tables inventory analyzer_init)))
              (visited inventory))"
    using f by (rule parse_inventory_resolved(2))
  then have m: "map Inr (unified_data ?az) =
      map (record_of (sensor_lookup ?az) (datalogger_lookup ?az)) (visited inventory)"
    and e: "stderr_lines ?az = []"
    by (simp_all add: resolved_def analyzer_init_def)
  have "length (map Inr (unified_data ?az) :: (pyexn + pydict) list) = length (visited inventory)"
    by (simp only: m length_map)
  then have l: "length (unified_data ?az) = length (doc_streams root_elem)"
    by (simp add: d)
  show ?thesis
    using parse_inventory_resolved(1) [OF f] e m d l by simp
qed

theorem parse_inventory_one_record_per_stream_witness:
  "valid_document two_station_document
   \<and> findall two_station_document ''Inventory'' = [two_station_inventory]
   \<and> snd (parse_inventory (Inr two_station_document) analyzer_init) = None
   \<and> stderr_lines (fst (parse_inventory (Inr two_station_document) analyzer_init)) = []
   \<and> map (\<lambda>s. get s ''code'') (doc_streams two_station_document) =
       [Some ''BHZ'', Some ''BHN'', Some ''HHZ'', Some ''LHZ'']
   \<and> map (\<lambda>r. (map_of r ''station'', map_of r ''location'', map_of r ''channel''))
        (unified_data (fst (parse_inventory (Inr two_station_document) analyzer_init))) =
       [(Some (PyStr ''ABC''), Some (PyStr ''00''), Some (PyStr ''BHZ'')),
        (Some (PyStr ''ABC''), Some (PyStr ''00''), Some (PyStr ''BHN'')),
        (Some (PyStr ''ABC''), Some (PyStr ''10''), Some (PyStr ''HHZ'')),
        (Some (PyStr ''XYZ''), Some (PyStr ''''), Some (PyStr ''LHZ''))]
   \<and> length (unified_data (fst (parse_inventory (Inr two_station_document) analyzer_init))) =
       length (doc_streams two_station_document)"
proof -
  have v: "valid_document two_station_document"
    by code_simp
  have f: "findall two_station_document ''Inventory'' = [two_station_inventory]"
    by code_simp
  have s: "map (\<lambda>s. get s ''code'') (doc_streams two_station_document) =
       [Some ''BHZ'', Some ''BHN'', Some ''HHZ'', Some ''LHZ'']"
    by code_simp
  have r: "map (\<lambda>r. (map_of r ''station'', map_of r ''location'', map_of r ''channel''))
        (unified_data (fst (parse_inventory (Inr two_station_document) analyzer_init))) =
       [(Some (PyStr ''ABC''), Some (PyStr ''00''), Some (PyStr ''BHZ'')),
        (Some (PyStr ''ABC''), Some (PyStr ''00''), Some (PyStr ''BHN'')),
        (Some (PyStr ''ABC''), Some (PyStr ''10''), Some (PyStr ''HHZ'')),
        (Some (PyStr ''XYZ''), Some (PyStr ''''), Some (PyStr ''LHZ''))]"
    by code_simp
  from parse_inventory_one_record_per_stream [OF v f] v f s r
  show ?thesis by blast
qed

text \<open>Validity matters: with a network inside a network, the descendant searches visit the
  one stream twice.\<close>

lemma nested_network_visited_twice:
  "length (visited nested_network_inventory) = 2
   \<and> length (doc_streams nested_network_inventory) = 1
   \<and> \<not> valid_inventory nested_network_inventory"
  by code_simp

subsection \<open>No stream fails to resolve\<close>

lemma set_update_subset: "set (AList.update k v al) \<subseteq> insert (k, v) (set al)"
  by (induction al) auto

lemma index_by_publicID_infos:
  "(ident, info) \<in> set (index_by_publicID f els lk) \<Longrightarrow> info \<in> f ` set els \<or> (ident, info) \<in> set lk"
proof (induction els arbitrary: lk)
  case Nil
  then show ?case by (simp add: index_by_publicID_def)
next
  case (Cons el els)
  from Cons.prems have "(ident, info) \<in> set (index_by_publicID f els (AList.update (get el ''publicID'') (f el) lk))"
    by (simp add: index_by_publicID_def)
  from Cons.IH [OF this] show ?case
    using set_update_subset [of "get el ''publicID''" "f el" lk] by auto
qed

lemma map_of_dict_update_other:
  "k \<notin> fst ` set other \<Longrightarrow> map_of (dict_update d other) k = map_of d k"
  unfolding dict_update_def
  by (induction other arbitrary: d) (auto simp add: AList.update_conv')

lemma map_of_add_datalogger_other:
  "k \<notin> fst ` set info \<Longrightarrow> k \<noteq> ''decimation_info'' \<Longrightarrow> map_of (add_datalogger info d) k = map_of d k"
  unfolding add_datalogger_def
  by (induction info arbitrary: d) (auto simp add: AList.update_conv')

lemma stream_data_depth:
  assumes "\<And>info. map_of sl (get s ''sensor'') = Some info \<Longrightarrow> ''depth'' \<notin> fst ` set info"
    and "\<And>info. map_of dl (get s ''datalogger'') = Some info \<Longrightarrow> ''depth'' \<notin> fst ` set info"
    and "stream_data sl dl nc ns ne sc ss se lc lat lon el s = Inr d"
  shows "map_of d ''depth'' = Some (opt (get_element_text s ''depth''))"
  using assms
  by (auto simp add: stream_data_def Let_def AList.update_conv' map_of_dict_update_other
      map_of_add_datalogger_other split: option.splits)

lemma built_lookups_no_depth:
  assumes "map_of (sensor_lookup (build_lookup_tables i analyzer_init)) ref = Some info
           \<or> map_of (datalogger_lookup (build_lookup_tables i analyzer_init)) ref = Some info"
  shows "''depth'' \<notin> fst ` set info"
proof -
  from assms have "info \<in> sensor_info ` set (findall_desc i ''sensor'')
      \<or> info \<in> datalogger_info ` set (findall_desc i ''datalogger'')"
    using index_by_publicID_infos [of ref info sensor_info "findall_desc i ''sensor''" "[]"]
      index_by_publicID_infos [of ref info datalogger_info "findall_desc i ''datalogger''" "[]"]
    by (auto simp add: build_lookup_tables_def analyzer_init_def dest!: map_of_SomeD)
  then show ?thesis
    by (auto simp add: sensor_info_def datalogger_info_def)
qed

lemma built_sensors_no_depth:
  "map_of (sensor_lookup (build_lookup_tables i analyzer_init)) ref = Some info \<Longrightarrow>
     ''depth'' \<notin> fst ` set info"
  using built_lookups_no_depth by blast

lemma built_dataloggers_no_depth:
  "map_of (datalogger_lookup (build_lookup_tables i analyzer_init)) ref = Some info \<Longrightarrow>
     ''depth'' \<notin> fst ` set info"
  using built_lookups_no_depth by blast

text \<open>
  C3 (amended). Resolving a stream converts no text to a number and cannot fail: for every
  document with an \<^verbatim>\<open>Inventory\<close>, the pass reports nothing and leaves one record for every
  stream it visits, each carrying the stream's depth text as it stands. A document with
  10 streams of which the fifth has a non-numeric depth therefore yields 10 records and no
  resolution error.
\<close>

theorem parse_inventory_resolves_every_stream:
  assumes "find_elem root_elem ''Inventory'' = Some inventory"
  shows "snd (parse_inventory (Inr root_elem) analyzer_init) = None
       \<and> stderr_lines (fst (parse_inventory (Inr root_elem) analyzer_init)) = []
       \<and> length (unified_data (fst (parse_inventory (Inr root_elem) analyzer_init))) =
           length (visited inventory)
       \<and> map (\<lambda>r. map_of r ''depth'')
            (unified_data (fst (parse_inventory (Inr root_elem) analyzer_init))) =
           map (\<lambda>v. Some (opt (get_element_text (snd (snd (snd v))) ''depth''))) (visited inventory)"
proof -
  let ?az = "fst (parse_inventory (Inr root_elem) analyzer_init)"
  let ?b = "build_lookup_tables inventory analyzer_init"
  let ?rec = "record_of (sensor_lookup ?b) (datalogger_lookup ?b)"
  have r: "resolved ?b ?az (map ?rec (visited inventory))"
    using assms by (rule parse_inventory_resolved(2))
  then have m: "map Inr (unified_data ?az) = map ?rec (visited inventory)"
    and e: "stderr_lines ?az = []"
    by (simp_all add: resolved_def analyzer_init_def)
  have "length (map Inr (unified_data ?az) :: (pyexn + pydict) list) = length (visited inventory)"
    by (simp only: m length_map)
  then have l: "length (unified_data ?az) = length (visited inventory)"
    by simp
  have depth: "\<And>v d. ?rec v = Inr d \<Longrightarrow>
      map_of d ''depth'' = Some (opt (get_element_text (snd (snd (snd v))) ''depth''))"
  proof -
    fix v d assume a: "?rec v = Inr d"
    obtain n s lo st where v: "v = (n, s, lo, st)" by (cases v)
    show "map_of d ''depth'' = Some (opt (get_element_text (snd (snd (snd v))) ''depth''))"
      using a unfolding v record_of_def prod.case snd_conv
      by (rule stream_data_depth [rotated 2])
         (erule built_sensors_no_depth, erule built_dataloggers_no_depth)
  qed
  have "map (\<lambda>r. map_of r ''depth'') (unified_data ?az) =
        map (\<lambda>v. Some (opt (get_element_text (snd (snd (snd v))) ''depth''))) (visited inventory)"
  proof (rule nth_equalityI)
    show "length (map (\<lambda>r. map_of r ''depth'') (unified_data ?az)) =
          length (map (\<lambda>v. Some (opt (get_element_text (snd (snd (snd v))) ''depth''))) (visited inventory))"
      using l by simp
  next
    fix k assume "k < length (map (\<lambda>r. map_of r ''depth'') (unified_data ?az))"
    then have k: "k < length (unified_data ?az)" by simp
    have "?rec (visited inventory ! k) = map ?rec (visited inventory) ! k"
      using k l by simp
    also have "\<dots> = map Inr (unified_data ?az) ! k"
      by (simp only: m)
    also have "\<dots> = Inr (unified_data ?az ! k)"
      using k by simp
    finally have "?rec (visited inventory ! k) = Inr (unified_data ?az ! k)" .
    from depth [OF this] show "map (\<lambda>r. map_of r ''depth'') (unified_data ?az) ! k =
        map (\<lambda>v. Some (opt (get_element_text (snd (snd (snd v))) ''depth''))) (visited inventory) ! k"
      using k l by simp
  qed
  then show ?thesis
    using parse_inventory_resolved(1) [OF assms] e l by simp
qed

theorem parse_inventory_resolves_every_stream_witness:
  "find_elem (depths_document ten_depths) ''Inventory'' = Some (hd (children (depths_document ten_depths)))
   \<and> length (visited (hd (children (depths_document ten_depths)))) = 10
   \<and> stderr_lines (fst (parse_inventory (Inr (depths_document ten_depths)) analyzer_init)) = []
   \<and> length (unified_data (fst (parse_inventory (Inr (depths_document ten_depths)) analyzer_init))) = 10
   \<and> map (\<lambda>r. map_of r ''depth'')
        (unified_data (fst (parse_inventory (Inr (depths_document ten_depths)) analyzer_init))) =
       map (\<lambda>d. Some (PyStr d)) ten_depths"
proof -
  have f: "find_elem (depths_document ten_depths) ''Inventory'' =
      Some (hd (children (depths_document ten_depths)))"
    by code_simp
  have n: "length (visited (hd (children (depths_document ten_depths)))) = 10"
    by code_simp
  have d: "map (\<lambda>v. Some (opt (get_element_text (snd (snd (snd v))) ''depth'')))
        (visited (hd (children (depths_document ten_depths)))) =
      map (\<lambda>d. Some (PyStr d)) ten_depths"
    by code_simp
  from parse_inventory_resolves_every_stream [OF f] f n d
  show ?thesis by simp
qed

text \<open>The ten streams of the scenario all resolve; the fifth record holds \<^verbatim>\<open>abc\<close> as its
  depth.\<close>

theorem parse_inventory_resolves_every_stream_counterexample:
  "length (unified_data (fst (parse_inventory (Inr (depths_document ten_depths)) analyzer_init))) = 10
   \<and> stderr_lines (fst (parse_inventory (Inr (depths_document ten_depths)) analyzer_init)) = []
   \<and> map_of (unified_data (fst (parse_inventory (Inr (depths_document ten_depths)) analyzer_init)) ! 4)
        ''depth'' = Some (PyStr ''abc'')"
  by code_simp

subsection \<open>A document without an inventory\<close>

lemma parse_inventory_raises:
  "find_elem root_elem ''Inventory'' = None \<Longrightarrow>
     parse_inventory_try (Inr root_elem) az = (az, Some (ValueError ''No Inventory element found in XML''))"
  by (simp add: parse_inventory_try_def)

text \<open>
  C4 (amended). When the root has no \<^verbatim>\<open>Inventory\<close> child, \<^verbatim>\<open>parse_inventory\<close> raises its
  \<^verbatim>\<open>ValueError\<close> before any lookup is built or stream resolved, catches it itself, prints
  it to the error stream and returns normally: lookups and \<^verbatim>\<open>unified_data\<close> are unchanged
  and no exception reaches the caller.
\<close>

theorem parse_inventory_without_inventory:
  assumes "find_elem root_elem ''Inventory'' = None"
  shows "parse_inventory (Inr root_elem) az =
           (az\<lparr>stderr_lines := stderr_lines az @
                 [Error_parsing_inventory (ValueError ''No Inventory element found in XML'')]\<rparr>,
            None)"
  by (simp add: parse_inventory_def parse_inventory_raises [OF assms])

theorem parse_inventory_without_inventory_witness:
  "find_elem config_document ''Inventory'' = None
   \<and> parse_inventory (Inr config_document) analyzer_init =
       (analyzer_init\<lparr>stderr_lines :=
            [Error_parsing_inventory (ValueError ''No Inventory element found in XML'')]\<rparr>,
        None)"
proof -
  have f: "find_elem config_document ''Inventory'' = None"
    by code_simp
  from parse_inventory_without_inventory [OF f, of analyzer_init] f
  show ?thesis by (simp add: analyzer_init_def)
qed

text \<open>On a root without children the call returns normally, the analyzer holds the
  printed error, and the export that \<^verbatim>\<open>main\<close> runs next finds nothing to write.\<close>

theorem parse_inventory_without_inventory_counterexample:
  "snd (parse_inventory (Inr (Elem (sc3 ''seiscomp'') [] None [])) analyzer_init) = None
   \<and> stderr_lines (fst (parse_inventory (Inr (Elem (sc3 ''seiscomp'') [] None [])) analyzer_init)) =
       [Error_parsing_inventory (ValueError ''No Inventory element found in XML'')]
   \<and> export_to_csv (fst (parse_inventory (Inr (Elem (sc3 ''seiscomp'') [] None [])) analyzer_init)) =
       (fst (parse_inventory (Inr (Elem (sc3 ''seiscomp'') [] None [])) analyzer_init), None)"
  by code_simp

end
